theory Spec2Isabelle
  imports Complex_Main
begin

section \<open>JavaScript numbers\<close>

text \<open>
  The log viewer computes with JavaScript numbers. They are modelled as exact rationals
  extended by \<open>NaN\<close> and the two infinities: every comparison with \<open>NaN\<close> is false,
  \<open>Infinity - Infinity\<close> is \<open>NaN\<close>, and so on. Two things of IEEE doubles are left
  out: the finite precision (sums and quotients are exact here, and no finite value
  rounds to an infinity or to zero) and the sign of zero (\<open>-0\<close> and \<open>+0\<close> are one
  value, as they are for JavaScript's own \<open>===\<close>, \<open><\<close> and \<open>>=\<close>).

  The theorems of section \<open>The claims\<close> do not rest on that exactness. Of the
  arithmetic they use that addition is monotone in each argument, so that a sum of numbers
  that are not negative is not negative and a sum of positive numbers is positive, which
  rounding to the nearest double keeps; where they speak of a sum it is the sum the code
  takes, in the code's order, and no theorem equates sums taken in different orders.
\<close>

datatype jsnum = NaN | NInf | Fin rat | PInf

fun js_lt :: "jsnum \<Rightarrow> jsnum \<Rightarrow> bool" where
  "js_lt NaN _ = False"
| "js_lt _ NaN = False"
| "js_lt PInf _ = False"
| "js_lt _ NInf = False"
| "js_lt NInf _ = True"
| "js_lt (Fin a) (Fin b) = (a < b)"
| "js_lt (Fin a) PInf = True"

fun js_le :: "jsnum \<Rightarrow> jsnum \<Rightarrow> bool" where
  "js_le NaN _ = False"
| "js_le _ NaN = False"
| "js_le NInf _ = True"
| "js_le _ PInf = True"
| "js_le PInf _ = False"
| "js_le _ NInf = False"
| "js_le (Fin a) (Fin b) = (a \<le> b)"

text \<open>\<open>a > b\<close> and \<open>a >= b\<close> of the source.\<close>

definition js_gt :: "jsnum \<Rightarrow> jsnum \<Rightarrow> bool" where
  "js_gt a b = js_lt b a"

definition js_ge :: "jsnum \<Rightarrow> jsnum \<Rightarrow> bool" where
  "js_ge a b = js_le b a"

fun js_neg :: "jsnum \<Rightarrow> jsnum" where
  "js_neg NaN = NaN"
| "js_neg NInf = PInf"
| "js_neg (Fin a) = Fin (- a)"
| "js_neg PInf = NInf"

text \<open>\<open>Math.abs\<close>.\<close>

fun js_abs :: "jsnum \<Rightarrow> jsnum" where
  "js_abs NaN = NaN"
| "js_abs NInf = PInf"
| "js_abs (Fin a) = Fin \<bar>a\<bar>"
| "js_abs PInf = PInf"

fun js_add :: "jsnum \<Rightarrow> jsnum \<Rightarrow> jsnum" where
  "js_add NaN _ = NaN"
| "js_add _ NaN = NaN"
| "js_add PInf NInf = NaN"
| "js_add NInf PInf = NaN"
| "js_add PInf _ = PInf"
| "js_add _ PInf = PInf"
| "js_add NInf _ = NInf"
| "js_add _ NInf = NInf"
| "js_add (Fin a) (Fin b) = Fin (a + b)"

definition js_sub :: "jsnum \<Rightarrow> jsnum \<Rightarrow> jsnum" where
  "js_sub a b = js_add a (js_neg b)"

text \<open>The sign of a number: \<open>None\<close> for \<open>NaN\<close>.\<close>

fun js_sign :: "jsnum \<Rightarrow> int option" where
  "js_sign NaN = None"
| "js_sign NInf = Some (- 1)"
| "js_sign (Fin a) = Some (if a < 0 then - 1 else if a = 0 then 0 else 1)"
| "js_sign PInf = Some 1"

definition inf_of_sign :: "int \<Rightarrow> jsnum" where
  "inf_of_sign k = (if k < 0 then NInf else if k = 0 then NaN else PInf)"

fun js_mul :: "jsnum \<Rightarrow> jsnum \<Rightarrow> jsnum" where
  "js_mul (Fin a) (Fin b) = Fin (a * b)"
| "js_mul a b =
     (case (js_sign a, js_sign b) of
        (Some j, Some k) \<Rightarrow> inf_of_sign (j * k)
      | _ \<Rightarrow> NaN)"

text \<open>
  Division. A finite non-zero number over zero is an infinity whose sign, in
  JavaScript, also depends on the sign of the zero; the model takes the zero as \<open>+0\<close>.
  The source divides only by a total that it has tested to be positive.
\<close>

fun js_div :: "jsnum \<Rightarrow> jsnum \<Rightarrow> jsnum" where
  "js_div NaN _ = NaN"
| "js_div _ NaN = NaN"
| "js_div (Fin a) (Fin b) = (if b = 0 then inf_of_sign (if a < 0 then - 1 else if a = 0 then 0 else 1)
                             else Fin (a / b))"
| "js_div (Fin a) _ = Fin 0"
| "js_div PInf (Fin b) = (if b < 0 then NInf else PInf)"
| "js_div NInf (Fin b) = (if b < 0 then PInf else NInf)"
| "js_div _ _ = NaN"

text \<open>\<open>Math.max\<close> of two arguments.\<close>

fun js_max :: "jsnum \<Rightarrow> jsnum \<Rightarrow> jsnum" where
  "js_max NaN _ = NaN"
| "js_max _ NaN = NaN"
| "js_max a b = (if js_lt a b then b else a)"

text \<open>\<open>null\<close> in a numeric comparison or in arithmetic converts to \<open>0\<close>.\<close>

fun num_of_null :: "jsnum option \<Rightarrow> jsnum" where
  "num_of_null None = Fin 0"
| "num_of_null (Some x) = x"

section \<open>Strings\<close>

text \<open>
  Strings are lists of 8-bit characters, so the model covers text in the Latin-1 range.
  \<open>String.prototype.trim\<close> and the conversion to a number strip white space and line
  terminators; in this range these are TAB, LF, VT, FF, CR, space and U+00A0.
\<close>

definition is_ws :: "char \<Rightarrow> bool" where
  "is_ws c = (c \<in> set [CHR 0x09, CHR 0x0A, CHR 0x0B, CHR 0x0C, CHR 0x0D, CHR 0x20, CHR 0xA0])"

definition trim :: "string \<Rightarrow> string" where
  "trim s = rev (dropWhile is_ws (rev (dropWhile is_ws s)))"

text \<open>\<open>s.split(",")\<close>, for any separator character: at least one field.\<close>

fun split_on :: "char \<Rightarrow> string \<Rightarrow> string list" where
  "split_on d [] = [[]]"
| "split_on d (c # cs) =
     (if c = d then [] # split_on d cs
      else (case split_on d cs of r # rs \<Rightarrow> (c # r) # rs | [] \<Rightarrow> [[c]]))"

text \<open>\<open>text.split(/\r?\n/)\<close>: a line ends at LF, and a CR right before it is dropped.\<close>

fun split_lines :: "string \<Rightarrow> string list" where
  "split_lines [] = [[]]"
| "split_lines [c] = (if c = CHR 0x0A then [[], []] else [[c]])"
| "split_lines (c # d # cs) =
     (if c = CHR 0x0A then [] # split_lines (d # cs)
      else if c = CHR 0x0D \<and> d = CHR 0x0A then [] # split_lines cs
      else (case split_lines (d # cs) of r # rs \<Rightarrow> (c # r) # rs | [] \<Rightarrow> [[c]]))"

subsection \<open>The conversion \<open>Number(string)\<close>\<close>

text \<open>
  ECMAScript's StringToNumber: the trimmed string is empty (the number 0), a decimal
  literal with an optional sign (\<open>Infinity\<close>, digits with an optional fraction and an
  optional exponent), or an unsigned literal in base 16, 8 or 2 with its prefix; anything
  else is \<open>NaN\<close>.
\<close>

definition digit_of :: "int \<Rightarrow> char \<Rightarrow> int option" where
  "digit_of b c =
     (let n = of_char c :: int;
          v = (if 48 \<le> n \<and> n \<le> 57 then Some (n - 48)
               else if 97 \<le> n \<and> n \<le> 102 then Some (n - 87)
               else if 65 \<le> n \<and> n \<le> 70 then Some (n - 55)
               else None)
      in case v of Some k \<Rightarrow> (if k < b then Some k else None) | None \<Rightarrow> None)"

fun digits_acc :: "int \<Rightarrow> int \<Rightarrow> string \<Rightarrow> int option" where
  "digits_acc b acc [] = Some acc"
| "digits_acc b acc (c # cs) =
     (case digit_of b c of None \<Rightarrow> None | Some k \<Rightarrow> digits_acc b (acc * b + k) cs)"

text \<open>The value of a possibly empty string of digits in base \<open>b\<close>.\<close>

definition digits_value :: "int \<Rightarrow> string \<Rightarrow> int option" where
  "digits_value b s = digits_acc b 0 s"

definition scale10 :: "rat \<Rightarrow> int \<Rightarrow> rat" where
  "scale10 m e = (if 0 \<le> e then m * 10 ^ nat e else m / 10 ^ nat (- e))"

text \<open>The exponent part after \<open>e\<close> or \<open>E\<close>: an optional sign and at least one digit.\<close>

definition exponent_value :: "string \<Rightarrow> int option" where
  "exponent_value s =
     (case s of
        [] \<Rightarrow> None
      | c # cs \<Rightarrow>
          if c = CHR ''+'' \<or> c = CHR ''-'' then
            (if cs = [] then None
             else (case digits_value 10 cs of
                     None \<Rightarrow> None
                   | Some n \<Rightarrow> Some (if c = CHR ''-'' then - n else n)))
          else digits_value 10 s)"

text \<open>The mantissa: digits, or digits around one point with a digit on some side.\<close>

definition mantissa_value :: "string \<Rightarrow> rat option" where
  "mantissa_value s =
     (let ip = takeWhile (\<lambda>c. c \<noteq> CHR ''.'') s;
          rest = dropWhile (\<lambda>c. c \<noteq> CHR ''.'') s
      in case rest of
           [] \<Rightarrow> (if ip = [] then None else map_option of_int (digits_value 10 ip))
         | _ # fp \<Rightarrow>
             if ip = [] \<and> fp = [] then None
             else (case (digits_value 10 ip, digits_value 10 fp) of
                     (Some i, Some f) \<Rightarrow> Some (of_int i + of_int f / 10 ^ length fp)
                   | _ \<Rightarrow> None))"

definition is_exp_char :: "char \<Rightarrow> bool" where
  "is_exp_char c = (c = CHR ''e'' \<or> c = CHR ''E'')"

definition unsigned_decimal :: "string \<Rightarrow> jsnum" where
  "unsigned_decimal s =
     (if s = ''Infinity'' then PInf
      else
        let m = takeWhile (\<lambda>c. \<not> is_exp_char c) s;
            rest = dropWhile (\<lambda>c. \<not> is_exp_char c) s
        in case mantissa_value m of
             None \<Rightarrow> NaN
           | Some q \<Rightarrow>
               (case rest of
                  [] \<Rightarrow> Fin q
                | _ # ex \<Rightarrow> (case exponent_value ex of None \<Rightarrow> NaN | Some e \<Rightarrow> Fin (scale10 q e))))"

definition non_decimal :: "string \<Rightarrow> jsnum option" where
  "non_decimal s =
     (case s of
        c # p # ds \<Rightarrow>
          if c = CHR ''0'' \<and> p \<in> set ''xXoObB'' then
            (let b = (if p \<in> set ''xX'' then 16 else if p \<in> set ''oO'' then 8 else 2)
             in Some (if ds = [] then NaN
                      else (case digits_value b ds of None \<Rightarrow> NaN | Some n \<Rightarrow> Fin (of_int n))))
          else None
      | _ \<Rightarrow> None)"

definition Number_js :: "string \<Rightarrow> jsnum" where
  "Number_js str =
     (let s = trim str in
      if s = [] then Fin 0
      else (case non_decimal s of
              Some v \<Rightarrow> v
            | None \<Rightarrow>
                (case s of
                   c # cs \<Rightarrow>
                     if c = CHR ''+'' then unsigned_decimal cs
                     else if c = CHR ''-'' then js_neg (unsigned_decimal cs)
                     else unsigned_decimal s
                 | [] \<Rightarrow> Fin 0)))"

section \<open>Core data structures\<close>

text \<open>
  An event object of a numeric record. The damage-done and healing events carry a
  \<open>target\<close> property and no \<open>source\<close>; the damage-taken event carries a \<open>source\<close>
  and no \<open>target\<close>: an absent property is \<open>None\<close>.
\<close>

record num_event =
  ev_timestamp :: jsnum
  ev_type :: string
  ev_source :: "string option"
  ev_target :: "string option"
  ev_skill :: string
  ev_amount :: jsnum
  ev_pool :: string
  ev_hitType :: string

text \<open>An effect event; its \<open>effectId\<close> is the number, or the raw string when it is not one.\<close>

record effect_event =
  fx_timestamp :: jsnum
  fx_type :: string
  fx_source :: string
  fx_target :: string
  fx_effectName :: string
  fx_effectId :: "string + jsnum"

record entity =
  ent_name :: string
  damageDone :: jsnum
  healingDone :: jsnum
  damageReceived :: jsnum
  damageEvents :: "num_event list"
  healEvents :: "num_event list"
  damageTakenEvents :: "num_event list"
  buffsApplied :: "effect_event list"
  debuffsApplied :: "effect_event list"
  buffsReceived :: "effect_event list"
  debuffsReceived :: "effect_event list"

text \<open>
  The counters only ever count up from 0 by 1, so they are natural numbers. \<open>byType\<close>
  is an object indexed by the kind tag.
\<close>

record global_stats =
  totalLines :: nat
  parsedLines :: nat
  skippedLines :: nat
  byType :: "string \<rightharpoonup> nat"

record time_bounds =
  bounds_min :: "jsnum option"
  bounds_max :: "jsnum option"

record time_filter =
  filter_enabled :: bool
  filter_start :: "jsnum option"
  filter_end :: "jsnum option"

text \<open>
  The module's global variables. \<open>entities\<close> is a JavaScript \<open>Map\<close>, which iterates
  in insertion order: an association list, new keys appended at the end. An entity object
  is only ever reached through this map, so a reference to it is its key.
\<close>

record state =
  entities :: "(string \<times> entity) list"
  globalStats :: global_stats
  timeBounds :: time_bounds
  timeFilter :: time_filter

definition newEntity :: "string \<Rightarrow> entity" where
  "newEntity name =
     \<lparr>ent_name = name, damageDone = Fin 0, healingDone = Fin 0, damageReceived = Fin 0,
      damageEvents = [], healEvents = [], damageTakenEvents = [],
      buffsApplied = [], debuffsApplied = [], buffsReceived = [], debuffsReceived = []\<rparr>"

text \<open>\<open>getEntity\<close> registers the name when it is new; the entity is then read by name.\<close>

definition getEntity :: "string \<Rightarrow> (string \<times> entity) list \<Rightarrow> (string \<times> entity) list" where
  "getEntity name ents =
     (if map_of ents name = None then ents @ [(name, newEntity name)] else ents)"

text \<open>A write through the reference \<open>name\<close>: the object stays where it is in the map.\<close>

definition updateEntity ::
  "string \<Rightarrow> (entity \<Rightarrow> entity) \<Rightarrow> (string \<times> entity) list \<Rightarrow> (string \<times> entity) list" where
  "updateEntity name f ents = map (\<lambda>(n, e). if n = name then (n, f e) else (n, e)) ents"

text \<open>The entity a name stands for: the registered one, or the one \<open>getEntity\<close> would make.\<close>

definition entityOf :: "(string \<times> entity) list \<Rightarrow> string \<Rightarrow> entity" where
  "entityOf ents name = (case map_of ents name of Some e \<Rightarrow> e | None \<Rightarrow> newEntity name)"

definition updateTimeBounds :: "jsnum \<Rightarrow> time_bounds \<Rightarrow> time_bounds" where
  "updateTimeBounds timestamp tb =
     (let tb1 = (if bounds_min tb = None \<or> js_lt timestamp (num_of_null (bounds_min tb))
                 then tb\<lparr>bounds_min := Some timestamp\<rparr> else tb)
      in if bounds_max tb1 = None \<or> js_gt timestamp (num_of_null (bounds_max tb1))
         then tb1\<lparr>bounds_max := Some timestamp\<rparr> else tb1)"

section \<open>Parsing logic\<close>

text \<open>
  The increments \<open>globalStats.totalLines++\<close>, \<open>globalStats.skippedLines++\<close> and
  \<open>globalStats.parsedLines++\<close>.
\<close>

definition incTotal :: "state \<Rightarrow> state" where
  "incTotal s = s\<lparr>globalStats := (globalStats s)\<lparr>totalLines := totalLines (globalStats s) + 1\<rparr>\<rparr>"

definition incSkipped :: "state \<Rightarrow> state" where
  "incSkipped s =
     s\<lparr>globalStats := (globalStats s)\<lparr>skippedLines := skippedLines (globalStats s) + 1\<rparr>\<rparr>"

definition incParsed :: "state \<Rightarrow> state" where
  "incParsed s =
     s\<lparr>globalStats := (globalStats s)\<lparr>parsedLines := parsedLines (globalStats s) + 1\<rparr>\<rparr>"

text \<open>\<open>globalStats.byType[type] = (globalStats.byType[type] || 0) + 1\<close>\<close>

definition incByType :: "string \<Rightarrow> state \<Rightarrow> state" where
  "incByType type s =
     s\<lparr>globalStats := (globalStats s)\<lparr>byType :=
        (byType (globalStats s))(type \<mapsto> (case byType (globalStats s) type of
                                              None \<Rightarrow> 1 | Some c \<Rightarrow> c + 1))\<rparr>\<rparr>"

text \<open>
  In the two parsers \<open>source\<close> and \<open>target\<close> are the entities that \<open>getEntity\<close>
  returns for the two names: both names are registered first, source before target, and
  each later write to \<open>source\<close> or \<open>target\<close> is a write to the entity of that name.
  When the two names are equal, all the writes reach the one entity, as in the source.
\<close>

definition parseNumericEvent :: "jsnum \<Rightarrow> string \<Rightarrow> string list \<Rightarrow> state \<Rightarrow> state" where
  "parseNumericEvent timestamp type parts s =
     (if length parts < 8 then incSkipped s
      else
        let sourceName = parts ! 2;
            targetName = parts ! 3;
            skill = parts ! 4;
            amountStr = parts ! 5;
            pool = parts ! 6;
            hitType = parts ! 7;
            amountRaw = Number_js amountStr
        in
        if amountRaw = NaN then incSkipped s
        else
          let s1 = incByType type (incParsed s);
              s2 = s1\<lparr>timeBounds := updateTimeBounds timestamp (timeBounds s1)\<rparr>;
              ents = getEntity targetName (getEntity sourceName (entities s2))
          in
          if type = ''DMG'' \<or> type = ''DOT'' then
            let dmgAmount = (if js_lt amountRaw (Fin 0) then js_neg amountRaw else amountRaw);
                ents1 = updateEntity sourceName
                          (\<lambda>e. e\<lparr>damageDone := js_add (damageDone e) dmgAmount\<rparr>) ents;
                ents2 = updateEntity targetName
                          (\<lambda>e. e\<lparr>damageReceived := js_add (damageReceived e) dmgAmount\<rparr>) ents1;
                dmgEvent = \<lparr>ev_timestamp = timestamp, ev_type = type, ev_source = None,
                            ev_target = Some targetName, ev_skill = skill, ev_amount = dmgAmount,
                            ev_pool = pool, ev_hitType = hitType\<rparr>;
                dmgTakenEvent = \<lparr>ev_timestamp = timestamp, ev_type = type,
                                 ev_source = Some sourceName, ev_target = None, ev_skill = skill,
                                 ev_amount = dmgAmount, ev_pool = pool, ev_hitType = hitType\<rparr>;
                ents3 = updateEntity sourceName
                          (\<lambda>e. e\<lparr>damageEvents := damageEvents e @ [dmgEvent]\<rparr>) ents2;
                ents4 = updateEntity targetName
                          (\<lambda>e. e\<lparr>damageTakenEvents := damageTakenEvents e @ [dmgTakenEvent]\<rparr>) ents3
            in s2\<lparr>entities := ents4\<rparr>
          else if type = ''HEAL'' then
            let healAmount = js_abs amountRaw;
                ents1 = updateEntity sourceName
                          (\<lambda>e. e\<lparr>healingDone := js_add (healingDone e) healAmount\<rparr>) ents;
                healEvent = \<lparr>ev_timestamp = timestamp, ev_type = type, ev_source = None,
                             ev_target = Some targetName, ev_skill = skill, ev_amount = healAmount,
                             ev_pool = pool, ev_hitType = hitType\<rparr>;
                ents2 = updateEntity sourceName
                          (\<lambda>e. e\<lparr>healEvents := healEvents e @ [healEvent]\<rparr>) ents1
            in s2\<lparr>entities := ents2\<rparr>
          else s2\<lparr>entities := ents\<rparr>)"

definition parseEffectEvent :: "jsnum \<Rightarrow> string \<Rightarrow> string list \<Rightarrow> state \<Rightarrow> state" where
  "parseEffectEvent timestamp type parts s =
     (if length parts < 6 then incSkipped s
      else
        let sourceName = parts ! 2;
            targetName = parts ! 3;
            effectName = parts ! 4;
            effectIdStr = parts ! 5;
            effectId = Number_js effectIdStr;
            s1 = incByType type (incParsed s);
            s2 = s1\<lparr>timeBounds := updateTimeBounds timestamp (timeBounds s1)\<rparr>;
            ents = getEntity targetName (getEntity sourceName (entities s2));
            effectEvent = \<lparr>fx_timestamp = timestamp, fx_type = type, fx_source = sourceName,
                           fx_target = targetName, fx_effectName = effectName,
                           fx_effectId = (if effectId = NaN then Inl effectIdStr else Inr effectId)\<rparr>
        in
        if type = ''BUFF'' then
          s2\<lparr>entities :=
               updateEntity targetName (\<lambda>e. e\<lparr>buffsReceived := buffsReceived e @ [effectEvent]\<rparr>)
                 (updateEntity sourceName (\<lambda>e. e\<lparr>buffsApplied := buffsApplied e @ [effectEvent]\<rparr>)
                    ents)\<rparr>
        else
          s2\<lparr>entities :=
               updateEntity targetName (\<lambda>e. e\<lparr>debuffsReceived := debuffsReceived e @ [effectEvent]\<rparr>)
                 (updateEntity sourceName (\<lambda>e. e\<lparr>debuffsApplied := debuffsApplied e @ [effectEvent]\<rparr>)
                    ents)\<rparr>)"

text \<open>The trimmed fields of a trimmed line.\<close>

definition lineFields :: "string \<Rightarrow> string list" where
  "lineFields trimmed = map trim (split_on CHR '','' trimmed)"

definition parseLine :: "string \<Rightarrow> state \<Rightarrow> state" where
  "parseLine line s =
     (let trimmed = trim line in
      if trimmed = [] then s
      else
        let s1 = incTotal s;
            parts = lineFields trimmed
        in
        if length parts < 2 then incSkipped s1
        else
          let timestampStr = parts ! 0;
              type = parts ! 1;
              ts = Number_js timestampStr
          in
          if ts = NaN then incSkipped s1
          else if type \<in> set [''DMG'', ''DOT'', ''HEAL'', ''ENERGIZE''] then
            parseNumericEvent ts type parts s1
          else if type \<in> set [''BUFF'', ''DEBUFF''] then
            parseEffectEvent ts type parts s1
          else incSkipped s1)"

section \<open>Aggregation for the current time frame\<close>

definition isInCurrentTimeFrame :: "time_filter \<Rightarrow> jsnum \<Rightarrow> bool" where
  "isInCurrentTimeFrame tf timestamp =
     (if \<not> filter_enabled tf then True
      else js_ge timestamp (num_of_null (filter_start tf)) \<and>
           js_le timestamp (num_of_null (filter_end tf)))"

text \<open>One of the three loops of the aggregation: the sum of the amounts inside the frame.\<close>

definition sumInFrame :: "time_filter \<Rightarrow> num_event list \<Rightarrow> jsnum" where
  "sumInFrame tf evs =
     foldl (\<lambda>acc e. if isInCurrentTimeFrame tf (ev_timestamp e) then js_add acc (ev_amount e)
                     else acc) (Fin 0) evs"

record agg_row =
  row_name :: string
  row_damageDone :: jsnum
  row_healingDone :: jsnum
  row_damageReceived :: jsnum

definition buildAggregatedEntitiesForCurrentTimeFrame :: "state \<Rightarrow> agg_row list" where
  "buildAggregatedEntitiesForCurrentTimeFrame s =
     map (\<lambda>(n, entity).
            \<lparr>row_name = ent_name entity,
             row_damageDone = sumInFrame (timeFilter s) (damageEvents entity),
             row_healingDone = sumInFrame (timeFilter s) (healEvents entity),
             row_damageReceived = sumInFrame (timeFilter s) (damageTakenEvents entity)\<rparr>)
         (entities s)"

section \<open>Rendering\<close>



text \<open>The value of a property read: \<open>row[valueField]\<close> for any property name.\<close>

datatype jsval = Undefined | Str string | Num jsnum

definition row_get :: "agg_row \<Rightarrow> string \<Rightarrow> jsval" where
  "row_get row field =
     (if field = ''name'' then Str (row_name row)
      else if field = ''damageDone'' then Num (row_damageDone row)
      else if field = ''healingDone'' then Num (row_healingDone row)
      else if field = ''damageReceived'' then Num (row_damageReceived row)
      else Undefined)"

text \<open>The number in a value that has passed the test \<open>typeof v === "number"\<close>.\<close>

fun num_of_val :: "jsval \<Rightarrow> jsnum" where
  "num_of_val (Num v) = v"
| "num_of_val _ = NaN"

definition escapeHtml :: "string \<Rightarrow> string" where
  "escapeHtml str =
     concat (map (\<lambda>c. if c = CHR ''&'' then ''&amp;''
                       else if c = CHR ''<'' then ''&lt;''
                       else if c = CHR ''>'' then ''&gt;''
                       else if c = CHR 0x22 then ''&quot;''
                       else if c = CHR 0x27 then ''&#39;''
                       else [c]) str)"

text \<open>
  What \<open>renderEntityTable\<close> writes into its container: the paragraph "No data.", or a
  table with one line per row that passed the filter. The line holds the rank, the
  escaped name, the amount and, when asked for, the percentage; the formatting of the
  numbers into text (\<open>toLocaleString\<close>, \<open>toFixed(1)\<close>) and the column headers are not
  modelled.
\<close>

record table_row =
  tr_rank :: nat
  tr_name :: string
  tr_amount :: jsnum
  tr_percent :: "jsnum option"

datatype table = NoData | Table "table_row list"

definition keepRow :: "string \<Rightarrow> agg_row \<Rightarrow> bool" where
  "keepRow valueField row =
     (case row_get row valueField of Num v \<Rightarrow> js_gt v (Fin 0) | _ \<Rightarrow> False)"

definition renderEntityTable :: "agg_row list \<Rightarrow> string \<Rightarrow> bool \<Rightarrow> table" where
  "renderEntityTable rows valueField includePercent =
     (let filteredRows = filter (keepRow valueField) rows in
      if filteredRows = [] then NoData
      else
        let total = foldl (\<lambda>sum row. js_add sum (num_of_val (row_get row valueField)))
                      (Fin 0) filteredRows
        in Table (map (\<lambda>(index, row).
                         let amount = num_of_val (row_get row valueField) in
                         \<lparr>tr_rank = index + 1,
                          tr_name = escapeHtml (row_name row),
                          tr_amount = amount,
                          tr_percent =
                            (if includePercent
                             then Some (if js_gt total (Fin 0)
                                        then js_mul (js_div amount total) (Fin 100) else Fin 0)
                             else None)\<rparr>)
                    (enumerate 0 filteredRows)))"



section \<open>Time filter\<close>

text \<open>
  The functions of this section also write texts and input values to the page, and some
  of them render the tables again; what is modelled is their effect on the globals. The
  page elements they look up are taken to exist. Each of them writes the filter before it
  writes to the page, so where a write to the page throws (see \<open>epochToLocalInput\<close>
  below) the globals are the same as where it does not.
\<close>

definition setupTimeFilterUI :: "state \<Rightarrow> state" where
  "setupTimeFilterUI s =
     (if bounds_min (timeBounds s) = None \<or> bounds_max (timeBounds s) = None then s
      else s\<lparr>timeFilter := \<lparr>filter_enabled = False,
                             filter_start = bounds_min (timeBounds s),
                             filter_end = bounds_max (timeBounds s)\<rparr>\<rparr>)"

definition setInitialTimeFilterLast30Minutes :: "state \<Rightarrow> state" where
  "setInitialTimeFilterLast30Minutes s =
     (if bounds_min (timeBounds s) = None \<or> bounds_max (timeBounds s) = None then s
      else
        let THIRTY_MIN = Fin (30 * 60);
            candidateStart = js_sub (num_of_null (bounds_max (timeBounds s))) THIRTY_MIN;
            start = js_max candidateStart (num_of_null (bounds_min (timeBounds s)));
            end = bounds_max (timeBounds s)
        in s\<lparr>timeFilter := \<lparr>filter_enabled = True, filter_start = Some start,
                               filter_end = end\<rparr>\<rparr>)"

text \<open>
  \<open>applyTimeFilterFromInputs\<close> reads the two input fields through
  \<open>localInputToEpoch\<close>; the two epochs (\<open>NaN\<close> for a text that is no date) are the
  arguments here. The result is the message of the \<open>alert\<close>, if any, and the globals
  after the call.
\<close>

definition applyTimeFilterFromInputs :: "jsnum \<Rightarrow> jsnum \<Rightarrow> state \<Rightarrow> string option \<times> state" where
  "applyTimeFilterFromInputs startEpoch endEpoch s =
     (if startEpoch = NaN \<or> endEpoch = NaN then (Some ''Invalid date format.'', s)
      else if js_lt startEpoch (num_of_null (bounds_min (timeBounds s))) \<or>
              js_gt startEpoch (num_of_null (bounds_max (timeBounds s))) \<or>
              js_lt endEpoch (num_of_null (bounds_min (timeBounds s))) \<or>
              js_gt endEpoch (num_of_null (bounds_max (timeBounds s)))
      then (Some ''Time must be within earliest/latest log timestamps.'', s)
      else if js_gt startEpoch endEpoch then (Some ''Start time must be before end time.'', s)
      else (None, s\<lparr>timeFilter := \<lparr>filter_enabled = True, filter_start = Some startEpoch,
                                     filter_end = Some endEpoch\<rparr>\<rparr>))"

definition resetTimeFilterToFullRange :: "state \<Rightarrow> state" where
  "resetTimeFilterToFullRange s =
     s\<lparr>timeFilter := \<lparr>filter_enabled = False,
                       filter_start = bounds_min (timeBounds s),
                       filter_end = bounds_max (timeBounds s)\<rparr>\<rparr>"

section \<open>File handling\<close>

text \<open>The globals after the reset that the click on the parse button starts with.\<close>

definition resetState :: state where
  "resetState =
     \<lparr>entities = [],
      globalStats = \<lparr>totalLines = 0, parsedLines = 0, skippedLines = 0,
                     byType = map_of [(''DMG'', 0), (''DOT'', 0), (''HEAL'', 0),
                                      (''ENERGIZE'', 0), (''BUFF'', 0), (''DEBUFF'', 0)]\<rparr>,
      timeBounds = \<lparr>bounds_min = None, bounds_max = None\<rparr>,
      timeFilter = \<lparr>filter_enabled = False, filter_start = None, filter_end = None\<rparr>\<rparr>"

text \<open>The loop over the lines of the text.\<close>

definition parseLines :: "string list \<Rightarrow> state \<Rightarrow> state" where
  "parseLines lines s = foldl (\<lambda>s line. parseLine line s) s lines"

text \<open>
  \<open>epochToLocalInput(ts)\<close> makes \<open>new Date(ts * 1000)\<close> and calls \<open>toISOString\<close> on
  it, which throws a \<open>RangeError\<close> when the date is not valid: when \<open>ts\<close> is not finite
  or \<open>ts * 1000\<close> is beyond 8.64e15 milliseconds on either side (\<open>null\<close> is the date 0).
\<close>

definition epochToLocalInput_throws :: "jsnum option \<Rightarrow> bool" where
  "epochToLocalInput_throws ts =
     (case num_of_null ts of Fin q \<Rightarrow> 8640000000000000 < \<bar>q * 1000\<bar> | _ \<Rightarrow> True)"

text \<open>
  \<open>setupTimeFilterUI\<close> calls it on the two time bounds, after it has written the filter:
  when the call throws, the globals are as \<open>setupTimeFilterUI\<close> gives them.
\<close>

definition setupTimeFilterUI_throws :: "state \<Rightarrow> bool" where
  "setupTimeFilterUI_throws s =
     (\<not> (bounds_min (timeBounds s) = None \<or> bounds_max (timeBounds s) = None) \<and>
      (epochToLocalInput_throws (bounds_min (timeBounds s)) \<or>
       epochToLocalInput_throws (bounds_max (timeBounds s))))"

text \<open>
  The load of a log: the reset, the loop, and the two initialisations of the filter. An
  exception of \<open>setupTimeFilterUI\<close> ends the handler, so the second initialisation is
  not reached then. The result is the globals the handler leaves behind.
\<close>

definition loadLog :: "string \<Rightarrow> state" where
  "loadLog text =
     (let parsed = parseLines (split_lines text) resetState;
          s = setupTimeFilterUI parsed
      in if setupTimeFilterUI_throws parsed then s
         else setInitialTimeFilterLast30Minutes s)"

text \<open>The two buttons of the time filter, and a session of clicks on them.\<close>

datatype filter_click = ApplyTimeFilter jsnum jsnum | ResetTimeFilter

fun click :: "filter_click \<Rightarrow> state \<Rightarrow> state" where
  "click (ApplyTimeFilter startEpoch endEpoch) s = snd (applyTimeFilterFromInputs startEpoch endEpoch s)"
| "click ResetTimeFilter s = resetTimeFilterToFullRange s"

definition clicks :: "filter_click list \<Rightarrow> state \<Rightarrow> state" where
  "clicks cs s = foldl (\<lambda>s c. click c s) s cs"

section \<open>Notions used in the properties\<close>

text \<open>The sum of the amounts of a history, in the order the source adds them up.\<close>

definition sumAmounts :: "num_event list \<Rightarrow> jsnum" where
  "sumAmounts evs = foldl js_add (Fin 0) (map ev_amount evs)"

definition totalsMatch :: "entity \<Rightarrow> bool" where
  "totalsMatch e =
     (damageDone e = sumAmounts (damageEvents e) \<and>
      healingDone e = sumAmounts (healEvents e) \<and>
      damageReceived e = sumAmounts (damageTakenEvents e))"

definition amountsNonneg :: "entity \<Rightarrow> bool" where
  "amountsNonneg e =
     (list_all (\<lambda>ev. js_le (Fin 0) (ev_amount ev)) (damageEvents e) \<and>
      list_all (\<lambda>ev. js_le (Fin 0) (ev_amount ev)) (healEvents e) \<and>
      list_all (\<lambda>ev. js_le (Fin 0) (ev_amount ev)) (damageTakenEvents e))"

text \<open>\<open>reduce((sum, v) => sum + v, 0)\<close>\<close>

definition js_sum :: "jsnum list \<Rightarrow> jsnum" where
  "js_sum vs = foldl js_add (Fin 0) vs"

text \<open>The lines of a rendered table, and the percentages it shows.\<close>

fun tableRows :: "table \<Rightarrow> table_row list" where
  "tableRows NoData = []"
| "tableRows (Table trs) = trs"





text \<open>The invariant of the registry.\<close>

definition entitiesOk :: "state \<Rightarrow> bool" where
  "entitiesOk s = list_all (\<lambda>(n, e). totalsMatch e \<and> amountsNonneg e) (entities s)"

text \<open>The time bounds hold numbers, and every event of a history lies within them.\<close>

definition boundsOk :: "time_bounds \<Rightarrow> bool" where
  "boundsOk tb = (bounds_min tb \<noteq> Some NaN \<and> bounds_max tb \<noteq> Some NaN)"

definition inBounds :: "time_bounds \<Rightarrow> jsnum \<Rightarrow> bool" where
  "inBounds tb t =
     (case (bounds_min tb, bounds_max tb) of
        (Some lo, Some hi) \<Rightarrow> js_le lo t \<and> js_le t hi
      | _ \<Rightarrow> False)"

definition eventsInBounds :: "state \<Rightarrow> bool" where
  "eventsInBounds s =
     (boundsOk (timeBounds s) \<and>
      list_all (\<lambda>(n, e).
          list_all (\<lambda>ev. inBounds (timeBounds s) (ev_timestamp ev)) (damageEvents e) \<and>
          list_all (\<lambda>ev. inBounds (timeBounds s) (ev_timestamp ev)) (healEvents e) \<and>
          list_all (\<lambda>ev. inBounds (timeBounds s) (ev_timestamp ev)) (damageTakenEvents e))
        (entities s))"

section \<open>Facts about numbers\<close>

lemma js_abs_nonneg: "x \<noteq> NaN \<Longrightarrow> js_le (Fin 0) (js_abs x)"
  by (cases x) auto

lemma js_abs_source: "x \<noteq> NaN \<Longrightarrow> (if js_lt x (Fin 0) then js_neg x else x) = js_abs x"
  by (cases x) auto

lemma js_abs_not_NaN: "x \<noteq> NaN \<Longrightarrow> js_abs x \<noteq> NaN"
  by (cases x) auto

lemma js_lt_le: "a \<noteq> NaN \<Longrightarrow> b \<noteq> NaN \<Longrightarrow> js_lt a b = (\<not> js_le b a)"
  by (cases a; cases b) auto

section \<open>Facts about the registry\<close>

lemma map_of_getEntity:
  "map_of (getEntity n ents) m =
     (if m = n \<and> map_of ents m = None then Some (newEntity n) else map_of ents m)"
  by (auto simp: getEntity_def map_add_def split: option.splits)

lemma map_of_updateEntity:
  "map_of (updateEntity n f ents) m =
     (if m = n then map_option f (map_of ents m) else map_of ents m)"
  by (induction ents) (auto simp: updateEntity_def)

lemma entityOf_getEntity: "entityOf (getEntity n ents) m = entityOf ents m"
  by (auto simp: entityOf_def map_of_getEntity)

lemma entityOf_updateEntity:
  "map_of ents n \<noteq> None \<Longrightarrow>
   entityOf (updateEntity n f ents) m = (if m = n then f (entityOf ents m) else entityOf ents m)"
  by (auto simp: entityOf_def map_of_updateEntity)

lemma present_getEntity_same: "map_of (getEntity n ents) n \<noteq> None"
  by (simp add: map_of_getEntity)

lemma present_getEntity: "map_of ents m \<noteq> None \<Longrightarrow> map_of (getEntity n ents) m \<noteq> None"
  by (simp add: map_of_getEntity)

lemma present_updateEntity:
  "map_of ents m \<noteq> None \<Longrightarrow> map_of (updateEntity n f ents) m \<noteq> None"
  by (auto simp: map_of_updateEntity)

lemmas present_simps = present_getEntity_same present_getEntity present_updateEntity

section \<open>The shape of a parsed line\<close>

lemma parseLine_blank: "trim line = [] \<Longrightarrow> parseLine line s = s"
  by (simp add: parseLine_def)

lemma parseLine_numeric:
  assumes "trim line \<noteq> []" and "lineFields (trim line) = parts" and "8 \<le> length parts"
    and "Number_js (parts ! 0) \<noteq> NaN"
    and "parts ! 1 \<in> {''DMG'', ''DOT'', ''HEAL'', ''ENERGIZE''}"
  shows "parseLine line s = parseNumericEvent (Number_js (parts ! 0)) (parts ! 1) parts (incTotal s)"
  using assms by (auto simp: parseLine_def Let_def)

lemma entities_inc [simp]:
  "entities (incTotal s) = entities s" "entities (incSkipped s) = entities s"
  "entities (incParsed s) = entities s" "entities (incByType t s) = entities s"
  by (simp_all add: incTotal_def incSkipped_def incParsed_def incByType_def)

lemma parseNumericEvent_damage_entities:
  assumes "8 \<le> length parts" and "Number_js (parts ! 5) \<noteq> NaN" and "type = ''DMG'' \<or> type = ''DOT''"
  shows "entityOf (entities (parseNumericEvent ts type parts s)) n =
     (let a = js_abs (Number_js (parts ! 5));
          e0 = entityOf (entities s) n;
          e1 = (if n = parts ! 2 then e0\<lparr>damageDone := js_add (damageDone e0) a\<rparr> else e0);
          e2 = (if n = parts ! 3 then e1\<lparr>damageReceived := js_add (damageReceived e1) a\<rparr> else e1);
          e3 = (if n = parts ! 2 then e2\<lparr>damageEvents := damageEvents e2 @
                  [\<lparr>ev_timestamp = ts, ev_type = type, ev_source = None,
                    ev_target = Some (parts ! 3), ev_skill = parts ! 4, ev_amount = a,
                    ev_pool = parts ! 6, ev_hitType = parts ! 7\<rparr>]\<rparr> else e2)
      in if n = parts ! 3 then e3\<lparr>damageTakenEvents := damageTakenEvents e3 @
                  [\<lparr>ev_timestamp = ts, ev_type = type, ev_source = Some (parts ! 2),
                    ev_target = None, ev_skill = parts ! 4, ev_amount = a,
                    ev_pool = parts ! 6, ev_hitType = parts ! 7\<rparr>]\<rparr> else e3)"
  using assms
  by (simp add: parseNumericEvent_def Let_def js_abs_source entityOf_updateEntity
      entityOf_getEntity present_simps)

lemma parseNumericEvent_heal_entities:
  assumes "8 \<le> length parts" and "Number_js (parts ! 5) \<noteq> NaN"
  shows "entityOf (entities (parseNumericEvent ts ''HEAL'' parts s)) n =
     (let a = js_abs (Number_js (parts ! 5));
          e0 = entityOf (entities s) n
      in if n = parts ! 2
         then e0\<lparr>healingDone := js_add (healingDone e0) a,
                 healEvents := healEvents e0 @
                  [\<lparr>ev_timestamp = ts, ev_type = ''HEAL'', ev_source = None,
                    ev_target = Some (parts ! 3), ev_skill = parts ! 4, ev_amount = a,
                    ev_pool = parts ! 6, ev_hitType = parts ! 7\<rparr>]\<rparr>
         else e0)"
  using assms
  by (simp add: parseNumericEvent_def Let_def entityOf_updateEntity
      entityOf_getEntity present_simps)

section \<open>The counters\<close>

lemma stats_inc [simp]:
  "globalStats (incTotal s) = (globalStats s)\<lparr>totalLines := totalLines (globalStats s) + 1\<rparr>"
  "globalStats (incSkipped s) = (globalStats s)\<lparr>skippedLines := skippedLines (globalStats s) + 1\<rparr>"
  "globalStats (incParsed s) = (globalStats s)\<lparr>parsedLines := parsedLines (globalStats s) + 1\<rparr>"
  by (simp_all add: incTotal_def incSkipped_def incParsed_def)

lemma counters_incByType [simp]:
  "totalLines (globalStats (incByType t s)) = totalLines (globalStats s)"
  "parsedLines (globalStats (incByType t s)) = parsedLines (globalStats s)"
  "skippedLines (globalStats (incByType t s)) = skippedLines (globalStats s)"
  by (simp_all add: incByType_def)

lemma parseNumericEvent_counters:
  "totalLines (globalStats (parseNumericEvent ts type parts s)) = totalLines (globalStats s) \<and>
   (if length parts < 8 \<or> Number_js (parts ! 5) = NaN
    then parsedLines (globalStats (parseNumericEvent ts type parts s)) = parsedLines (globalStats s) \<and>
         skippedLines (globalStats (parseNumericEvent ts type parts s)) = skippedLines (globalStats s) + 1
    else parsedLines (globalStats (parseNumericEvent ts type parts s)) = parsedLines (globalStats s) + 1 \<and>
         skippedLines (globalStats (parseNumericEvent ts type parts s)) = skippedLines (globalStats s))"
  by (simp add: parseNumericEvent_def Let_def)

lemma parseEffectEvent_counters:
  "totalLines (globalStats (parseEffectEvent ts type parts s)) = totalLines (globalStats s) \<and>
   (if length parts < 6
    then parsedLines (globalStats (parseEffectEvent ts type parts s)) = parsedLines (globalStats s) \<and>
         skippedLines (globalStats (parseEffectEvent ts type parts s)) = skippedLines (globalStats s) + 1
    else parsedLines (globalStats (parseEffectEvent ts type parts s)) = parsedLines (globalStats s) + 1 \<and>
         skippedLines (globalStats (parseEffectEvent ts type parts s)) = skippedLines (globalStats s))"
  by (simp add: parseEffectEvent_def Let_def)

lemma parseLine_counters:
  assumes "trim line \<noteq> []"
  shows "totalLines (globalStats (parseLine line s)) = totalLines (globalStats s) + 1 \<and>
     (parsedLines (globalStats (parseLine line s)) = parsedLines (globalStats s) + 1 \<and>
      skippedLines (globalStats (parseLine line s)) = skippedLines (globalStats s)
      \<or>
      parsedLines (globalStats (parseLine line s)) = parsedLines (globalStats s) \<and>
      skippedLines (globalStats (parseLine line s)) = skippedLines (globalStats s) + 1)"
proof -
  let ?parts = "lineFields (trim line)"
  let ?ts = "Number_js (?parts ! 0)"
  consider (short) "length ?parts < 2 \<or> ?ts = NaN"
    | (num) "\<not> (length ?parts < 2 \<or> ?ts = NaN)"
        "?parts ! 1 \<in> set [''DMG'', ''DOT'', ''HEAL'', ''ENERGIZE'']"
    | (eff) "\<not> (length ?parts < 2 \<or> ?ts = NaN)"
        "?parts ! 1 \<notin> set [''DMG'', ''DOT'', ''HEAL'', ''ENERGIZE'']"
        "?parts ! 1 \<in> set [''BUFF'', ''DEBUFF'']"
    | (other) "\<not> (length ?parts < 2 \<or> ?ts = NaN)"
        "?parts ! 1 \<notin> set [''DMG'', ''DOT'', ''HEAL'', ''ENERGIZE'']"
        "?parts ! 1 \<notin> set [''BUFF'', ''DEBUFF'']"
    by blast
  then show ?thesis
  proof cases
    case short
    then show ?thesis using assms by (auto simp: parseLine_def Let_def)
  next
    case num
    then have "parseLine line s = parseNumericEvent ?ts (?parts ! 1) ?parts (incTotal s)"
      using assms by (simp add: parseLine_def Let_def)
    then show ?thesis
      using parseNumericEvent_counters [of ?ts "?parts ! 1" ?parts "incTotal s"]
      by (simp split: if_splits)
  next
    case eff
    then have "parseLine line s = parseEffectEvent ?ts (?parts ! 1) ?parts (incTotal s)"
      using assms by (simp add: parseLine_def Let_def)
    then show ?thesis
      using parseEffectEvent_counters [of ?ts "?parts ! 1" ?parts "incTotal s"]
      by (simp split: if_splits)
  next
    case other
    then show ?thesis using assms by (simp add: parseLine_def Let_def)
  qed
qed

lemma parseLine_balance:
  "totalLines (globalStats s) = parsedLines (globalStats s) + skippedLines (globalStats s) \<Longrightarrow>
   totalLines (globalStats (parseLine line s)) =
     parsedLines (globalStats (parseLine line s)) + skippedLines (globalStats (parseLine line s))"
  using parseLine_counters [of line s] parseLine_blank [of line s]
  by (cases "trim line = []") auto

lemma parseLines_balance:
  "totalLines (globalStats s) = parsedLines (globalStats s) + skippedLines (globalStats s) \<Longrightarrow>
   totalLines (globalStats (parseLines ls s)) =
     parsedLines (globalStats (parseLines ls s)) + skippedLines (globalStats (parseLines ls s))"
  unfolding parseLines_def
  by (induction ls arbitrary: s) (simp_all add: parseLine_balance)

lemma globalStats_filter_setup [simp]:
  "globalStats (setupTimeFilterUI s) = globalStats s"
  "globalStats (setInitialTimeFilterLast30Minutes s) = globalStats s"
  "globalStats (resetTimeFilterToFullRange s) = globalStats s"
  by (simp_all add: setupTimeFilterUI_def setInitialTimeFilterLast30Minutes_def Let_def
      resetTimeFilterToFullRange_def)

lemma skip_state:
  "incSkipped (incTotal s) =
   s\<lparr>globalStats := (globalStats s)\<lparr>totalLines := totalLines (globalStats s) + 1,
                                     skippedLines := skippedLines (globalStats s) + 1\<rparr>\<rparr>"
  by (simp add: incSkipped_def incTotal_def)

lemma parseLines_Nil: "parseLines [] s = s"
  by (simp add: parseLines_def)

lemma parseLines_Cons: "parseLines (l # ls) s = parseLines ls (parseLine l s)"
  by (simp add: parseLines_def)

section \<open>The time bounds and empty fields\<close>

lemma updateTimeBounds_includes:
  assumes "ts \<noteq> NaN" and "bounds_min tb \<noteq> Some NaN" and "bounds_max tb \<noteq> Some NaN"
  shows "\<exists>lo hi. bounds_min (updateTimeBounds ts tb) = Some lo \<and>
                 bounds_max (updateTimeBounds ts tb) = Some hi \<and> js_le lo ts \<and> js_le ts hi"
proof -
  have refl: "js_le ts ts" using assms(1) by (cases ts) auto
  have a: "\<not> js_lt ts x \<Longrightarrow> x \<noteq> NaN \<Longrightarrow> js_le x ts" for x
    using assms(1) by (cases ts; cases x) auto
  have b: "\<not> js_lt x ts \<Longrightarrow> x \<noteq> NaN \<Longrightarrow> js_le ts x" for x
    using assms(1) by (cases ts; cases x) auto
  show ?thesis
    using assms refl a b
    by (cases "bounds_min tb"; cases "bounds_max tb")
       (auto simp: updateTimeBounds_def Let_def js_gt_def)
qed

lemma timeBounds_parseNumericEvent:
  "8 \<le> length parts \<Longrightarrow> Number_js (parts ! 5) \<noteq> NaN \<Longrightarrow>
   timeBounds (parseNumericEvent ts type parts s) = updateTimeBounds ts (timeBounds s)"
  by (simp add: parseNumericEvent_def Let_def incByType_def incParsed_def)

lemma timeBounds_incTotal [simp]: "timeBounds (incTotal s) = timeBounds s"
  by (simp add: incTotal_def)

lemma trim_Nil: "trim [] = []"
  by (simp add: trim_def)

lemma Number_js_Nil: "Number_js [] = Fin 0"
  by (simp add: Number_js_def trim_Nil)

lemma parseLine_effect:
  assumes "trim line \<noteq> []" and "lineFields (trim line) = parts" and "2 \<le> length parts"
    and "Number_js (parts ! 0) \<noteq> NaN"
    and "parts ! 1 \<in> {''BUFF'', ''DEBUFF''}"
  shows "parseLine line s = parseEffectEvent (Number_js (parts ! 0)) (parts ! 1) parts (incTotal s)"
  using assms by (auto simp: parseLine_def Let_def)

lemma timeBounds_parseEffectEvent:
  "6 \<le> length parts \<Longrightarrow>
   timeBounds (parseEffectEvent ts type parts s) = updateTimeBounds ts (timeBounds s)"
  by (simp add: parseEffectEvent_def Let_def incByType_def incParsed_def)

lemma trim_white: "list_all is_ws w \<Longrightarrow> trim w = []"
  by (auto simp: trim_def list_all_iff dest: set_dropWhileD)

lemma Number_js_white: "list_all is_ws w \<Longrightarrow> Number_js w = Fin 0"
  by (simp add: Number_js_def trim_white)

section \<open>The invariant of the histories\<close>

lemma sumAmounts_Nil [simp]: "sumAmounts [] = Fin 0"
  by (simp add: sumAmounts_def)

lemma sumAmounts_snoc [simp]: "sumAmounts (evs @ [ev]) = js_add (sumAmounts evs) (ev_amount ev)"
  by (simp add: sumAmounts_def)

lemma entitiesOk_getEntity:
  "list_all (\<lambda>(n, e). totalsMatch e \<and> amountsNonneg e) ents \<Longrightarrow>
   list_all (\<lambda>(n, e). totalsMatch e \<and> amountsNonneg e) (getEntity a ents)"
  by (simp add: getEntity_def newEntity_def totalsMatch_def amountsNonneg_def)

lemma list_all_updateEntity:
  "list_all (\<lambda>(n, e). Q n e) (updateEntity a f ents) =
   list_all (\<lambda>(n, e). Q n (if n = a then f e else e)) ents"
  by (induction ents) (auto simp: updateEntity_def split: if_splits)

lemma list_all_entities_mono:
  "list_all (\<lambda>(n, e). P e) ents \<Longrightarrow> (\<And>n e. P e \<Longrightarrow> Q n e) \<Longrightarrow> list_all (\<lambda>(n, e). Q n e) ents"
  by (induction ents) auto

lemma parseNumericEvent_ok:
  assumes "entitiesOk s"
  shows "entitiesOk (parseNumericEvent ts type parts s)"
proof (cases "length parts < 8 \<or> Number_js (parts ! 5) = NaN")
  case True
  then show ?thesis using assms
    by (auto simp: parseNumericEvent_def entitiesOk_def Let_def)
next
  case False
  let ?ents = "getEntity (parts ! 3) (getEntity (parts ! 2) (entities s))"
  have ok: "list_all (\<lambda>(n, e). totalsMatch e \<and> amountsNonneg e) ?ents"
    using assms by (simp add: entitiesOk_def entitiesOk_getEntity)
  have nn: "js_le (Fin 0) (js_abs (Number_js (parts ! 5)))"
    using False by (simp add: js_abs_nonneg)
  show ?thesis
    using False nn
    apply (simp add: parseNumericEvent_def entitiesOk_def Let_def js_abs_source
        list_all_updateEntity)
    apply (intro conjI impI)
      apply (rule list_all_entities_mono [OF ok],
        simp add: totalsMatch_def amountsNonneg_def)+
    done
qed

lemma parseEffectEvent_ok:
  assumes "entitiesOk s"
  shows "entitiesOk (parseEffectEvent ts type parts s)"
proof (cases "length parts < 6")
  case True
  then show ?thesis using assms
    by (auto simp: parseEffectEvent_def entitiesOk_def Let_def)
next
  case False
  let ?ents = "getEntity (parts ! 3) (getEntity (parts ! 2) (entities s))"
  have ok: "list_all (\<lambda>(n, e). totalsMatch e \<and> amountsNonneg e) ?ents"
    using assms by (simp add: entitiesOk_def entitiesOk_getEntity)
  show ?thesis
    using False
    apply (simp add: parseEffectEvent_def entitiesOk_def Let_def list_all_updateEntity)
    apply (intro conjI impI)
      apply (rule list_all_entities_mono [OF ok],
        simp add: totalsMatch_def amountsNonneg_def)+
    done
qed

lemma entitiesOk_inc [simp]:
  "entitiesOk (incTotal s) = entitiesOk s" "entitiesOk (incSkipped s) = entitiesOk s"
  by (simp_all add: entitiesOk_def)

lemma parseLine_ok: "entitiesOk s \<Longrightarrow> entitiesOk (parseLine line s)"
  by (simp add: parseLine_def Let_def parseNumericEvent_ok parseEffectEvent_ok)

lemma parseLines_ok: "entitiesOk s \<Longrightarrow> entitiesOk (parseLines ls s)"
  by (induction ls arbitrary: s) (simp_all add: parseLines_Nil parseLines_Cons parseLine_ok)

lemma entities_filter_ops [simp]:
  "entities (setupTimeFilterUI s) = entities s"
  "entities (setInitialTimeFilterLast30Minutes s) = entities s"
  "entities (resetTimeFilterToFullRange s) = entities s"
  "entities (snd (applyTimeFilterFromInputs a b s)) = entities s"
  by (simp_all add: setupTimeFilterUI_def setInitialTimeFilterLast30Minutes_def Let_def
      resetTimeFilterToFullRange_def applyTimeFilterFromInputs_def)

lemma entities_click [simp]: "entities (click c s) = entities s"
  by (cases c) simp_all

lemma entities_clicks [simp]: "entities (clicks cs s) = entities s"
  unfolding clicks_def by (induction cs arbitrary: s) simp_all

lemma entities_loadLog: "entities (loadLog text) = entities (parseLines (split_lines text) resetState)"
  by (simp add: loadLog_def Let_def)

lemma loadLog_ok: "entitiesOk (loadLog text)"
proof -
  have "entitiesOk resetState" by (simp add: entitiesOk_def resetState_def)
  then have "entitiesOk (parseLines (split_lines text) resetState)" by (rule parseLines_ok)
  then show ?thesis by (simp add: entitiesOk_def entities_loadLog)
qed

text \<open>Parsing never reads the time filter.\<close>

lemma parseNumericEvent_filter:
  "parseNumericEvent ts type parts (s\<lparr>timeFilter := tf\<rparr>) =
   (parseNumericEvent ts type parts s)\<lparr>timeFilter := tf\<rparr>"
  by (simp add: parseNumericEvent_def Let_def incSkipped_def incParsed_def incByType_def)

lemma parseEffectEvent_filter:
  "parseEffectEvent ts type parts (s\<lparr>timeFilter := tf\<rparr>) =
   (parseEffectEvent ts type parts s)\<lparr>timeFilter := tf\<rparr>"
  by (simp add: parseEffectEvent_def Let_def incSkipped_def incParsed_def incByType_def)

lemma parseLine_filter:
  "parseLine line (s\<lparr>timeFilter := tf\<rparr>) = (parseLine line s)\<lparr>timeFilter := tf\<rparr>"
proof -
  have t: "incTotal (s\<lparr>timeFilter := tf\<rparr>) = (incTotal s)\<lparr>timeFilter := tf\<rparr>"
    by (simp add: incTotal_def)
  have k: "incSkipped (u\<lparr>timeFilter := tf\<rparr>) = (incSkipped u)\<lparr>timeFilter := tf\<rparr>" for u
    by (simp add: incSkipped_def)
  show ?thesis
    by (simp add: parseLine_def Let_def t k parseNumericEvent_filter parseEffectEvent_filter)
qed

lemma parseLines_filter:
  "parseLines ls (s\<lparr>timeFilter := tf\<rparr>) = (parseLines ls s)\<lparr>timeFilter := tf\<rparr>"
  by (induction ls arbitrary: s) (simp_all add: parseLines_Nil parseLines_Cons parseLine_filter)

section \<open>The events lie within the time bounds\<close>

lemma boundsOk_update: "ts \<noteq> NaN \<Longrightarrow> boundsOk tb \<Longrightarrow> boundsOk (updateTimeBounds ts tb)"
  by (auto simp: boundsOk_def updateTimeBounds_def Let_def)

lemma inBounds_new: "ts \<noteq> NaN \<Longrightarrow> boundsOk tb \<Longrightarrow> inBounds (updateTimeBounds ts tb) ts"
  using updateTimeBounds_includes [of ts tb] by (auto simp: inBounds_def boundsOk_def)

lemma inBounds_keep:
  assumes "ts \<noteq> NaN" and "inBounds tb t"
  shows "inBounds (updateTimeBounds ts tb) t"
proof -
  obtain lo hi where b: "bounds_min tb = Some lo" "bounds_max tb = Some hi" "js_le lo t" "js_le t hi"
    using assms(2) by (auto simp: inBounds_def split: option.splits)
  have lower: "js_lt ts lo \<Longrightarrow> js_le ts t"
    using b(3) by (cases ts; cases lo; cases t) auto
  have upper: "js_lt hi ts \<Longrightarrow> js_le t ts"
    using b(4) by (cases ts; cases hi; cases t) auto
  show ?thesis
    using b lower upper by (auto simp: inBounds_def updateTimeBounds_def Let_def js_gt_def)
qed

lemma eventsInBounds_inc [simp]:
  "eventsInBounds (incTotal s) = eventsInBounds s"
  "eventsInBounds (incSkipped s) = eventsInBounds s"
  by (simp_all add: eventsInBounds_def incTotal_def incSkipped_def)

lemma timeBounds_inc [simp]:
  "timeBounds (incSkipped s) = timeBounds s"
  "timeBounds (incParsed s) = timeBounds s"
  "timeBounds (incByType t s) = timeBounds s"
  by (simp_all add: incSkipped_def incParsed_def incByType_def)

lemma inBounds_getEntity:
  "list_all (\<lambda>(n, e).
          list_all (\<lambda>ev. P (ev_timestamp ev)) (damageEvents e) \<and>
          list_all (\<lambda>ev. P (ev_timestamp ev)) (healEvents e) \<and>
          list_all (\<lambda>ev. P (ev_timestamp ev)) (damageTakenEvents e)) ents \<Longrightarrow>
   list_all (\<lambda>(n, e).
          list_all (\<lambda>ev. P (ev_timestamp ev)) (damageEvents e) \<and>
          list_all (\<lambda>ev. P (ev_timestamp ev)) (healEvents e) \<and>
          list_all (\<lambda>ev. P (ev_timestamp ev)) (damageTakenEvents e)) (getEntity a ents)"
  by (simp add: getEntity_def newEntity_def)

lemma list_all_imp: "list_all P xs \<Longrightarrow> (\<And>x. P x \<Longrightarrow> Q x) \<Longrightarrow> list_all Q xs"
  by (induction xs) auto

lemma parseNumericEvent_inBounds:
  assumes "eventsInBounds s" and "ts \<noteq> NaN"
  shows "eventsInBounds (parseNumericEvent ts type parts s)"
proof (cases "length parts < 8 \<or> Number_js (parts ! 5) = NaN")
  case True
  then show ?thesis using assms
    by (auto simp: parseNumericEvent_def Let_def)
next
  case False
  let ?tb = "updateTimeBounds ts (timeBounds s)"
  let ?P = "\<lambda>(n :: string, e).
          list_all (\<lambda>ev. inBounds ?tb (ev_timestamp ev)) (damageEvents e) \<and>
          list_all (\<lambda>ev. inBounds ?tb (ev_timestamp ev)) (healEvents e) \<and>
          list_all (\<lambda>ev. inBounds ?tb (ev_timestamp ev)) (damageTakenEvents e)"
  let ?ents = "getEntity (parts ! 3) (getEntity (parts ! 2) (entities s))"
  have bo: "boundsOk (timeBounds s)" using assms(1) by (simp add: eventsInBounds_def)
  have new: "inBounds ?tb ts" by (rule inBounds_new [OF assms(2) bo])
  have old: "list_all (\<lambda>(n, e).
          list_all (\<lambda>ev. inBounds (timeBounds s) (ev_timestamp ev)) (damageEvents e) \<and>
          list_all (\<lambda>ev. inBounds (timeBounds s) (ev_timestamp ev)) (healEvents e) \<and>
          list_all (\<lambda>ev. inBounds (timeBounds s) (ev_timestamp ev)) (damageTakenEvents e))
        (entities s)"
    using assms(1) by (simp add: eventsInBounds_def)
  have "list_all ?P (entities s)"
    by (rule list_all_imp [OF old]) (auto simp: list_all_iff inBounds_keep [OF assms(2)])
  then have ok: "list_all ?P ?ents"
    by (intro inBounds_getEntity [where P = "inBounds ?tb"])
  have tb: "timeBounds (parseNumericEvent ts type parts s) = ?tb"
    using False by (simp add: timeBounds_parseNumericEvent)
  have "list_all ?P (entities (parseNumericEvent ts type parts s))"
    using False new
    apply (simp add: parseNumericEvent_def Let_def list_all_updateEntity del: split_paired_All)
    apply (intro conjI impI)
      apply (rule list_all_imp [OF ok], force)+
    done
  then show ?thesis
    using boundsOk_update [OF assms(2) bo] by (simp add: eventsInBounds_def tb)
qed

lemma parseEffectEvent_inBounds:
  assumes "eventsInBounds s" and "ts \<noteq> NaN"
  shows "eventsInBounds (parseEffectEvent ts type parts s)"
proof (cases "length parts < 6")
  case True
  then show ?thesis using assms
    by (auto simp: parseEffectEvent_def Let_def)
next
  case False
  let ?tb = "updateTimeBounds ts (timeBounds s)"
  let ?P = "\<lambda>(n :: string, e).
          list_all (\<lambda>ev. inBounds ?tb (ev_timestamp ev)) (damageEvents e) \<and>
          list_all (\<lambda>ev. inBounds ?tb (ev_timestamp ev)) (healEvents e) \<and>
          list_all (\<lambda>ev. inBounds ?tb (ev_timestamp ev)) (damageTakenEvents e)"
  let ?ents = "getEntity (parts ! 3) (getEntity (parts ! 2) (entities s))"
  have bo: "boundsOk (timeBounds s)" using assms(1) by (simp add: eventsInBounds_def)
  have old: "list_all (\<lambda>(n, e).
          list_all (\<lambda>ev. inBounds (timeBounds s) (ev_timestamp ev)) (damageEvents e) \<and>
          list_all (\<lambda>ev. inBounds (timeBounds s) (ev_timestamp ev)) (healEvents e) \<and>
          list_all (\<lambda>ev. inBounds (timeBounds s) (ev_timestamp ev)) (damageTakenEvents e))
        (entities s)"
    using assms(1) by (simp add: eventsInBounds_def)
  have "list_all ?P (entities s)"
    by (rule list_all_imp [OF old]) (auto simp: list_all_iff inBounds_keep [OF assms(2)])
  then have ok: "list_all ?P ?ents"
    by (intro inBounds_getEntity [where P = "inBounds ?tb"])
  have tb: "timeBounds (parseEffectEvent ts type parts s) = ?tb"
    using False by (simp add: timeBounds_parseEffectEvent)
  have "list_all ?P (entities (parseEffectEvent ts type parts s))"
    using False ok
    by (simp add: parseEffectEvent_def Let_def list_all_updateEntity del: split_paired_All)
  then show ?thesis
    using boundsOk_update [OF assms(2) bo] by (simp add: eventsInBounds_def tb)
qed

lemma parseLine_inBounds: "eventsInBounds s \<Longrightarrow> eventsInBounds (parseLine line s)"
  by (simp add: parseLine_def Let_def parseNumericEvent_inBounds parseEffectEvent_inBounds)

lemma parseLines_inBounds: "eventsInBounds s \<Longrightarrow> eventsInBounds (parseLines ls s)"
  by (induction ls arbitrary: s) (simp_all add: parseLines_Nil parseLines_Cons parseLine_inBounds)

lemma timeBounds_filter_ops [simp]:
  "timeBounds (setupTimeFilterUI s) = timeBounds s"
  "timeBounds (setInitialTimeFilterLast30Minutes s) = timeBounds s"
  "timeBounds (resetTimeFilterToFullRange s) = timeBounds s"
  "timeBounds (snd (applyTimeFilterFromInputs a b s)) = timeBounds s"
  by (simp_all add: setupTimeFilterUI_def setInitialTimeFilterLast30Minutes_def Let_def
      resetTimeFilterToFullRange_def applyTimeFilterFromInputs_def)

lemma timeBounds_click [simp]: "timeBounds (click c s) = timeBounds s"
  by (cases c) simp_all

lemma timeBounds_clicks [simp]: "timeBounds (clicks cs s) = timeBounds s"
  unfolding clicks_def by (induction cs arbitrary: s) simp_all

lemma clicks_inBounds: "eventsInBounds (clicks cs (loadLog text))"
proof -
  have "eventsInBounds resetState"
    by (simp add: eventsInBounds_def resetState_def boundsOk_def)
  then have "eventsInBounds (parseLines (split_lines text) resetState)"
    by (rule parseLines_inBounds)
  then show ?thesis by (simp add: eventsInBounds_def loadLog_def Let_def)
qed



section \<open>Windowed sums\<close>

lemma js_le_trans: "js_le a b \<Longrightarrow> js_le b c \<Longrightarrow> js_le a c"
  by (cases a; cases b; cases c) auto

lemma js_add_nonneg: "js_le (Fin 0) a \<Longrightarrow> js_le (Fin 0) x \<Longrightarrow> js_le (Fin 0) (js_add a x)"
  by (cases a; cases x) auto

lemma js_add_mono: "js_le a b \<Longrightarrow> js_le (Fin 0) a \<Longrightarrow> js_le (Fin 0) x \<Longrightarrow> js_le (js_add a x) (js_add b x)"
  by (cases a; cases b; cases x) auto

lemma js_add_incr: "js_le a b \<Longrightarrow> js_le (Fin 0) a \<Longrightarrow> js_le (Fin 0) x \<Longrightarrow> js_le a (js_add b x)"
  by (cases a; cases b; cases x) auto

lemma foldl_frame_mono:
  assumes "\<And>t. p t \<Longrightarrow> q t"
  shows "list_all (\<lambda>ev. js_le (Fin 0) (ev_amount ev)) evs \<Longrightarrow> js_le a b \<Longrightarrow> js_le (Fin 0) a \<Longrightarrow>
    js_le (foldl (\<lambda>acc e. if p (ev_timestamp e) then js_add acc (ev_amount e) else acc) a evs)
          (foldl (\<lambda>acc e. if q (ev_timestamp e) then js_add acc (ev_amount e) else acc) b evs)"
proof (induction evs arbitrary: a b)
  case Nil
  then show ?case by simp
next
  case (Cons ev evs)
  have nn: "js_le (Fin 0) (ev_amount ev)" and rest: "list_all (\<lambda>ev. js_le (Fin 0) (ev_amount ev)) evs"
    using Cons.prems(1) by simp_all
  show ?case
  proof (cases "p (ev_timestamp ev)")
    case True
    then have "q (ev_timestamp ev)" by (rule assms)
    then show ?thesis
      using True Cons.IH [OF rest js_add_mono [OF Cons.prems(2,3) nn] js_add_nonneg [OF Cons.prems(3) nn]]
      by simp
  next
    case False
    show ?thesis
    proof (cases "q (ev_timestamp ev)")
      case True
      then show ?thesis
        using False Cons.IH [OF rest js_add_incr [OF Cons.prems(2,3) nn] Cons.prems(3)]
        by simp
    next
      case q: False
      then show ?thesis
        using False Cons.IH [OF rest Cons.prems(2,3)] by simp
    qed
  qed
qed

lemma sumInFrame_mono:
  assumes "\<And>t. isInCurrentTimeFrame tf t \<Longrightarrow> isInCurrentTimeFrame tf' t"
    and "list_all (\<lambda>ev. js_le (Fin 0) (ev_amount ev)) evs"
  shows "js_le (sumInFrame tf evs) (sumInFrame tf' evs)"
  unfolding sumInFrame_def
  by (rule foldl_frame_mono [where p = "isInCurrentTimeFrame tf" and q = "isInCurrentTimeFrame tf'"])
     (use assms in simp_all)

lemma frame_widening:
  assumes "js_le start' start" and "js_le end end'"
    and "isInCurrentTimeFrame \<lparr>filter_enabled = True, filter_start = Some start, filter_end = Some end\<rparr> t"
  shows "isInCurrentTimeFrame \<lparr>filter_enabled = True, filter_start = Some start', filter_end = Some end'\<rparr> t"
  using assms by (auto simp: isInCurrentTimeFrame_def js_ge_def intro: js_le_trans)

section \<open>Sorting and tables\<close>

subsection \<open>Sums and the order of a sorted list\<close>

lemma js_add_zero [simp]: "js_add (Fin 0) x = x" "js_add x (Fin 0) = x"
  by (cases x; simp)+

lemma js_sum_Nil [simp]: "js_sum [] = Fin 0"
  by (simp add: js_sum_def)




subsection \<open>The rendered table\<close>



lemma map_enumerate_fst: "map (\<lambda>x. h (fst x)) (enumerate n xs) = map h [n..<n + length xs]"
  by (induction xs arbitrary: n) (simp_all add: upt_rec)



lemma render_ranks:
  "map tr_rank (tableRows (renderEntityTable rows f p)) =
   [1..<Suc (length (filter (keepRow f) rows))]"
proof -
  let ?kept = "filter (keepRow f) rows"
  have "map tr_rank (tableRows (renderEntityTable rows f p)) =
        map (\<lambda>x. Suc (fst x)) (enumerate 0 ?kept)"
    by (simp add: renderEntityTable_def Let_def comp_def case_prod_beta)
  also have "\<dots> = map Suc [0..<length ?kept]"
    using map_enumerate_fst [of Suc 0 ?kept] by simp
  also have "\<dots> = [1..<Suc (length ?kept)]"
    by (simp add: map_Suc_upt del: upt_Suc)
  finally show ?thesis .
qed






lemma render_no_percents:
  "map tr_percent (tableRows (renderEntityTable rows f False)) =
   replicate (length (filter (keepRow f) rows)) None"
  by (simp add: renderEntityTable_def Let_def comp_def case_prod_beta map_replicate_const)

subsection \<open>The aggregated rows\<close>



lemma sumInFrame_disabled: "\<not> filter_enabled tf \<Longrightarrow> sumInFrame tf evs = sumAmounts evs"
  by (simp add: sumInFrame_def sumAmounts_def isInCurrentTimeFrame_def foldl_map)








subsection \<open>A log whose time bounds are not dates\<close>

text \<open>
  A timestamp field \<open>Infinity\<close> is a number, so the line is parsed and both time bounds
  are \<open>Infinity\<close>; \<open>setupTimeFilterUI\<close> throws on it, and the filter stays the disabled
  full range instead of the last 30 minutes.
\<close>

lemma loadLog_invalid_date_example:
  "timeBounds (loadLog ''Infinity,DMG,A,B,S,5,P,H'') =
     \<lparr>bounds_min = Some PInf, bounds_max = Some PInf\<rparr>
   \<and> timeFilter (loadLog ''Infinity,DMG,A,B,S,5,P,H'') =
     \<lparr>filter_enabled = False, filter_start = Some PInf, filter_end = Some PInf\<rparr>
   \<and> timeFilter (loadLog ''100,DMG,A,B,S,5,P,H\<newline>5000,DMG,A,B,S,5,P,H'') =
     \<lparr>filter_enabled = True, filter_start = Some (Fin 3200), filter_end = Some (Fin 5000)\<rparr>"
  by code_simp

section \<open>The claims\<close>

subsection \<open>C1\<close>

text \<open>
  C1. For a line that parses as a DMG, DOT or HEAL event, the amount stored in the events
  appended to the histories, and added to the running totals, is the absolute value of
  the raw amount field: it is never negative.
\<close>

theorem stored_amount_is_absolute_value:
  assumes "trim line \<noteq> []" and "parts = lineFields (trim line)" and "8 \<le> length parts"
    and "Number_js (parts ! 0) = ts" and "ts \<noteq> NaN"
    and "Number_js (parts ! 5) = raw" and "raw \<noteq> NaN"
    and "kind = parts ! 1" and "kind \<in> {''DMG'', ''DOT'', ''HEAL''}"
    and "src = parts ! 2" and "tgt = parts ! 3"
    and "old = entities s" and "new = entities (parseLine line s)"
  shows "js_le (Fin 0) (js_abs raw) \<and>
    (if kind = ''HEAL'' then
       healEvents (entityOf new src) = healEvents (entityOf old src) @
         [\<lparr>ev_timestamp = ts, ev_type = kind, ev_source = None, ev_target = Some tgt,
           ev_skill = parts ! 4, ev_amount = js_abs raw, ev_pool = parts ! 6,
           ev_hitType = parts ! 7\<rparr>] \<and>
       healingDone (entityOf new src) = js_add (healingDone (entityOf old src)) (js_abs raw)
     else
       damageEvents (entityOf new src) = damageEvents (entityOf old src) @
         [\<lparr>ev_timestamp = ts, ev_type = kind, ev_source = None, ev_target = Some tgt,
           ev_skill = parts ! 4, ev_amount = js_abs raw, ev_pool = parts ! 6,
           ev_hitType = parts ! 7\<rparr>] \<and>
       damageTakenEvents (entityOf new tgt) = damageTakenEvents (entityOf old tgt) @
         [\<lparr>ev_timestamp = ts, ev_type = kind, ev_source = Some src, ev_target = None,
           ev_skill = parts ! 4, ev_amount = js_abs raw, ev_pool = parts ! 6,
           ev_hitType = parts ! 7\<rparr>] \<and>
       damageDone (entityOf new src) = js_add (damageDone (entityOf old src)) (js_abs raw) \<and>
       damageReceived (entityOf new tgt) = js_add (damageReceived (entityOf old tgt)) (js_abs raw))"
proof -
  have step: "parseLine line s = parseNumericEvent ts kind parts (incTotal s)"
    using assms parseLine_numeric [of line parts s] by auto
  show ?thesis
  proof (cases "kind = ''HEAL''")
    case True
    then show ?thesis
      using assms step parseNumericEvent_heal_entities [of parts ts "incTotal s"]
      by (simp add: js_abs_nonneg Let_def)
  next
    case False
    then have "kind = ''DMG'' \<or> kind = ''DOT''" using assms by auto
    then show ?thesis
      using False assms step parseNumericEvent_damage_entities [of parts kind ts "incTotal s"]
      by (simp add: js_abs_nonneg Let_def)
  qed
qed

lemma scenario_A_trim: "trim ''100,DMG,Alice,Bob,Fireball,-450,Magic,Crit'' \<noteq> []"
  by code_simp

lemma scenario_A_fields:
  "lineFields (trim ''100,DMG,Alice,Bob,Fireball,-450,Magic,Crit'') =
     [''100'', ''DMG'', ''Alice'', ''Bob'', ''Fireball'', ''-450'', ''Magic'', ''Crit'']"
  by code_simp

lemma Number_100: "Number_js ''100'' = Fin 100"
  by code_simp

lemma Number_minus_450: "Number_js ''-450'' = Fin (- 450)"
  by code_simp

lemma entityOf_reset: "entityOf (entities resetState) n = newEntity n"
  by (simp add: entityOf_def resetState_def)

theorem stored_amount_is_absolute_value_witness:
  "damageEvents (entityOf (entities (parseLine ''100,DMG,Alice,Bob,Fireball,-450,Magic,Crit'' resetState)) ''Alice'') =
     [\<lparr>ev_timestamp = Fin 100, ev_type = ''DMG'', ev_source = None, ev_target = Some ''Bob'',
       ev_skill = ''Fireball'', ev_amount = Fin 450, ev_pool = ''Magic'', ev_hitType = ''Crit''\<rparr>]
   \<and> damageDone (entityOf (entities (parseLine ''100,DMG,Alice,Bob,Fireball,-450,Magic,Crit'' resetState)) ''Alice'') = Fin 450
   \<and> damageReceived (entityOf (entities (parseLine ''100,DMG,Alice,Bob,Fireball,-450,Magic,Crit'' resetState)) ''Bob'') = Fin 450"
  using stored_amount_is_absolute_value [OF scenario_A_trim scenario_A_fields [symmetric],
      of "Fin 100" "Fin (- 450)" "''DMG''" "''Alice''" "''Bob''" "entities resetState" resetState
         "entities (parseLine ''100,DMG,Alice,Bob,Fireball,-450,Magic,Crit'' resetState)"]
  by (simp add: Number_100 Number_minus_450 entityOf_reset newEntity_def)

subsection \<open>C2\<close>

text \<open>
  C2. The time-window predicate is true for every timestamp when the filter is disabled;
  when the filter is enabled it is true exactly when \<open>start \<le> t\<close> and \<open>t \<le> end\<close>, both
  bounds included. (A bound that is still \<open>null\<close> compares as 0, as in JavaScript.)
\<close>

theorem isInCurrentTimeFrame_inclusive:
  "isInCurrentTimeFrame \<lparr>filter_enabled = False, filter_start = a, filter_end = b\<rparr> t
   \<and> isInCurrentTimeFrame \<lparr>filter_enabled = True, filter_start = a, filter_end = b\<rparr> t
       = (js_le (num_of_null a) t \<and> js_le t (num_of_null b))"
  by (simp add: isInCurrentTimeFrame_def js_ge_def)

theorem isInCurrentTimeFrame_inclusive_witness:
  "isInCurrentTimeFrame \<lparr>filter_enabled = False, filter_start = Some (Fin 10), filter_end = Some (Fin 20)\<rparr> (Fin 99)
   \<and> isInCurrentTimeFrame \<lparr>filter_enabled = True, filter_start = Some (Fin 10), filter_end = Some (Fin 20)\<rparr> (Fin 10)
   \<and> isInCurrentTimeFrame \<lparr>filter_enabled = True, filter_start = Some (Fin 10), filter_end = Some (Fin 20)\<rparr> (Fin 20)
   \<and> \<not> isInCurrentTimeFrame \<lparr>filter_enabled = True, filter_start = Some (Fin 10), filter_end = Some (Fin 20)\<rparr> (Fin 21)"
  using isInCurrentTimeFrame_inclusive [of "Some (Fin 10)" "Some (Fin 20)" "Fin 99"]
    isInCurrentTimeFrame_inclusive [of "Some (Fin 10)" "Some (Fin 20)" "Fin 10"]
    isInCurrentTimeFrame_inclusive [of "Some (Fin 10)" "Some (Fin 20)" "Fin 20"]
    isInCurrentTimeFrame_inclusive [of "Some (Fin 10)" "Some (Fin 20)" "Fin 21"]
  by simp

subsection \<open>C3\<close>

text \<open>
  C3. After the load of any log, and after any clicks on the time filter, every entity's
  running totals are the sums of the amounts of its histories: \<open>damageDone\<close> over the
  damage-done events, \<open>healingDone\<close> over the heal events, \<open>damageReceived\<close> over the
  damage-taken events. The time filter has no part in them: the clicks leave the entities
  as the parse made them, and the parse gives the same entities whatever the filter is.
\<close>

theorem totals_are_history_sums:
  "(\<forall>(n, e) \<in> set (entities (clicks cs (loadLog text))).
      damageDone e = sumAmounts (damageEvents e) \<and>
      healingDone e = sumAmounts (healEvents e) \<and>
      damageReceived e = sumAmounts (damageTakenEvents e))
   \<and> entities (clicks cs (loadLog text)) = entities (parseLines (split_lines text) resetState)
   \<and> entities (parseLines ls (s\<lparr>timeFilter := tf\<rparr>)) = entities (parseLines ls s)"
proof -
  have "list_all (\<lambda>(n, e). totalsMatch e \<and> amountsNonneg e) (entities (clicks cs (loadLog text)))"
    using loadLog_ok [of "text"] by (simp add: entitiesOk_def)
  then have "\<forall>(n, e) \<in> set (entities (clicks cs (loadLog text))). totalsMatch e"
    by (auto simp: list_all_iff)
  then show ?thesis
    by (simp add: totalsMatch_def entities_loadLog parseLines_filter)
qed

lemma two_hits_example:
  "map (\<lambda>(n, e). (n, damageDone e, damageReceived e))
     (entities (clicks [ApplyTimeFilter (Fin 150) (Fin 200)]
        (loadLog ''100,DMG,Alice,Bob,Fireball,-50,Magic,Crit\<newline>200,DMG,Alice,Bob,Fireball,70,Magic,Crit'')))
   = [(''Alice'', Fin 120, Fin 0), (''Bob'', Fin 0, Fin 120)]"
  by code_simp

theorem totals_are_history_sums_witness:
  "list_all (\<lambda>(n, e). damageDone e = sumAmounts (damageEvents e) \<and>
                       damageReceived e = sumAmounts (damageTakenEvents e))
     (entities (clicks [ApplyTimeFilter (Fin 150) (Fin 200)]
        (loadLog ''100,DMG,Alice,Bob,Fireball,-50,Magic,Crit\<newline>200,DMG,Alice,Bob,Fireball,70,Magic,Crit'')))
   \<and> map (\<lambda>(n, e). (n, damageDone e, damageReceived e))
     (entities (clicks [ApplyTimeFilter (Fin 150) (Fin 200)]
        (loadLog ''100,DMG,Alice,Bob,Fireball,-50,Magic,Crit\<newline>200,DMG,Alice,Bob,Fireball,70,Magic,Crit'')))
     = [(''Alice'', Fin 120, Fin 0), (''Bob'', Fin 0, Fin 120)]"
proof -
  have "list_all (\<lambda>(n, e). damageDone e = sumAmounts (damageEvents e) \<and>
                       damageReceived e = sumAmounts (damageTakenEvents e))
     (entities (clicks [ApplyTimeFilter (Fin 150) (Fin 200)]
        (loadLog ''100,DMG,Alice,Bob,Fireball,-50,Magic,Crit\<newline>200,DMG,Alice,Bob,Fireball,70,Magic,Crit'')))"
    unfolding list_all_iff
    using totals_are_history_sums [of "[ApplyTimeFilter (Fin 150) (Fin 200)]"
      "''100,DMG,Alice,Bob,Fireball,-50,Magic,Crit\<newline>200,DMG,Alice,Bob,Fireball,70,Magic,Crit''",
      THEN conjunct1]
    by fast
  then show ?thesis using two_hits_example by (rule conjI)
qed

subsection \<open>C4\<close>

text \<open>
  C4. A non-blank line that is malformed (fewer than two fields, a timestamp that is not
  a number, an unknown kind tag, too few fields for its kind, or an amount that is not a
  number) adds 1 to \<open>totalLines\<close> and 1 to \<open>skippedLines\<close> and changes nothing else of
  the state: not \<open>parsedLines\<close>, no entity, not the time bounds. The loop over the lines
  goes on with the lines after it.
\<close>

theorem malformed_line_skipped:
  assumes "trim line \<noteq> []" and "parts = lineFields (trim line)"
    and "length parts < 2
         \<or> Number_js (parts ! 0) = NaN
         \<or> parts ! 1 \<notin> {''DMG'', ''DOT'', ''HEAL'', ''ENERGIZE'', ''BUFF'', ''DEBUFF''}
         \<or> parts ! 1 \<in> {''DMG'', ''DOT'', ''HEAL'', ''ENERGIZE''} \<and>
             (length parts < 8 \<or> Number_js (parts ! 5) = NaN)
         \<or> parts ! 1 \<in> {''BUFF'', ''DEBUFF''} \<and> length parts < 6"
  shows "parseLine line s =
           s\<lparr>globalStats := (globalStats s)\<lparr>totalLines := totalLines (globalStats s) + 1,
                                             skippedLines := skippedLines (globalStats s) + 1\<rparr>\<rparr>
         \<and> parseLines (before @ line # after) s0 =
             parseLines after (parseLine line (parseLines before s0))"
proof -
  have "parseLine line s = incSkipped (incTotal s)"
    using assms
    by (auto simp: parseLine_def Let_def parseNumericEvent_def parseEffectEvent_def)
  then show ?thesis by (simp add: skip_state parseLines_def)
qed

lemma scenario_D_fields:
  "lineFields (trim ''abc,DMG,A,B,Skill,10,Pool,Hit'') =
     [''abc'', ''DMG'', ''A'', ''B'', ''Skill'', ''10'', ''Pool'', ''Hit'']"
  by code_simp

lemma scenario_D_trim: "trim ''abc,DMG,A,B,Skill,10,Pool,Hit'' \<noteq> []"
  by code_simp

lemma Number_abc: "Number_js ''abc'' = NaN"
  by code_simp

theorem malformed_line_skipped_witness:
  "parseLine ''abc,DMG,A,B,Skill,10,Pool,Hit'' resetState =
     resetState\<lparr>globalStats := (globalStats resetState)\<lparr>totalLines := 1, skippedLines := 1\<rparr>\<rparr>
   \<and> parsedLines (globalStats (parseLine ''abc,DMG,A,B,Skill,10,Pool,Hit'' resetState)) = 0
   \<and> parsedLines (globalStats (parseLines [''abc,DMG,A,B,Skill,10,Pool,Hit'',
        ''100,DMG,Alice,Bob,Fireball,-50,Magic,Crit''] resetState)) = 1"
proof -
  have ex: "parsedLines (globalStats (parseLine ''100,DMG,Alice,Bob,Fireball,-50,Magic,Crit''
      (resetState\<lparr>globalStats := (globalStats resetState)\<lparr>totalLines := 1, skippedLines := 1\<rparr>\<rparr>))) = 1"
    by code_simp
  have r0: "totalLines (globalStats resetState) = 0" "skippedLines (globalStats resetState) = 0"
    "parsedLines (globalStats resetState) = 0"
    by (simp_all add: resetState_def)
  show ?thesis
    using malformed_line_skipped [OF scenario_D_trim scenario_D_fields [symmetric],
        of resetState "[]" "[''100,DMG,Alice,Bob,Fireball,-50,Magic,Crit'']" resetState]
      ex
    by (simp add: Number_abc parseLines_Nil parseLines_Cons r0)
qed

subsection \<open>C5\<close>

text \<open>
  C5. For a loaded log with time bounds \<open>[lo, hi]\<close>, whatever the clicks on the filter
  before, an explicit window \<open>(start, end)\<close> is accepted exactly when both values lie in
  \<open>[lo, hi]\<close> and \<open>start \<le> end\<close>: then the filter is enabled with that range and nothing
  else changes. Otherwise the call alerts and leaves the whole state, the filter included,
  as it was.
\<close>

theorem applyTimeFilterFromInputs_validates:
  assumes "s = clicks cs (loadLog text)"
    and "bounds_min (timeBounds s) = Some lo" and "bounds_max (timeBounds s) = Some hi"
  shows "if js_le lo startEpoch \<and> js_le startEpoch hi \<and> js_le lo endEpoch \<and> js_le endEpoch hi
            \<and> js_le startEpoch endEpoch
         then applyTimeFilterFromInputs startEpoch endEpoch s =
                (None, s\<lparr>timeFilter := \<lparr>filter_enabled = True, filter_start = Some startEpoch,
                                          filter_end = Some endEpoch\<rparr>\<rparr>)
         else \<exists>msg. applyTimeFilterFromInputs startEpoch endEpoch s = (Some msg, s)"
proof -
  have "boundsOk (timeBounds s)"
    using clicks_inBounds [of cs "text"] assms(1) by (simp add: eventsInBounds_def)
  then have nn: "lo \<noteq> NaN" "hi \<noteq> NaN"
    using assms(2,3) by (auto simp: boundsOk_def)
  show ?thesis
  proof (cases "startEpoch = NaN \<or> endEpoch = NaN")
    case True
    then show ?thesis by (auto simp: applyTimeFilterFromInputs_def)
  next
    case False
    then show ?thesis using assms(2,3) nn
      by (simp add: applyTimeFilterFromInputs_def js_gt_def js_lt_le)
  qed
qed

lemma scenario_E_bounds:
  "timeBounds (loadLog ''0,DMG,A,B,S,1,P,H\<newline>1000,DMG,A,B,S,1,P,H'') =
     \<lparr>bounds_min = Some (Fin 0), bounds_max = Some (Fin 1000)\<rparr>"
  by code_simp

theorem applyTimeFilterFromInputs_validates_witness:
  "(\<exists>msg. applyTimeFilterFromInputs (Fin 500) (Fin 100)
             (loadLog ''0,DMG,A,B,S,1,P,H\<newline>1000,DMG,A,B,S,1,P,H'')
           = (Some msg, loadLog ''0,DMG,A,B,S,1,P,H\<newline>1000,DMG,A,B,S,1,P,H''))
   \<and> applyTimeFilterFromInputs (Fin 100) (Fin 500)
             (loadLog ''0,DMG,A,B,S,1,P,H\<newline>1000,DMG,A,B,S,1,P,H'')
       = (None, (loadLog ''0,DMG,A,B,S,1,P,H\<newline>1000,DMG,A,B,S,1,P,H'')
                  \<lparr>timeFilter := \<lparr>filter_enabled = True, filter_start = Some (Fin 100),
                                   filter_end = Some (Fin 500)\<rparr>\<rparr>)"
proof -
  define s where "s = loadLog ''0,DMG,A,B,S,1,P,H\<newline>1000,DMG,A,B,S,1,P,H''"
  have c: "s = clicks [] (loadLog ''0,DMG,A,B,S,1,P,H\<newline>1000,DMG,A,B,S,1,P,H'')"
    by (simp add: clicks_def s_def)
  have lo: "bounds_min (timeBounds s) = Some (Fin 0)"
    and hi: "bounds_max (timeBounds s) = Some (Fin 1000)"
    unfolding s_def by (simp_all only: scenario_E_bounds time_bounds.simps)
  have "(\<exists>msg. applyTimeFilterFromInputs (Fin 500) (Fin 100) s = (Some msg, s))
      \<and> applyTimeFilterFromInputs (Fin 100) (Fin 500) s =
          (None, s\<lparr>timeFilter := \<lparr>filter_enabled = True, filter_start = Some (Fin 100),
                                    filter_end = Some (Fin 500)\<rparr>\<rparr>)"
    using applyTimeFilterFromInputs_validates [OF c lo hi, of "Fin 500" "Fin 100"]
      applyTimeFilterFromInputs_validates [OF c lo hi, of "Fin 100" "Fin 500"]
    by simp
  then show ?thesis unfolding s_def .
qed

subsection \<open>C6\<close>





subsection \<open>C7\<close>

text \<open>
  C7. For the entities of any loaded log, replacing the enabled window \<open>[start, end]\<close> by
  a wider one, \<open>[start', end']\<close> with \<open>start' \<le> start\<close> and \<open>end \<le> end'\<close>, decreases none
  of the three windowed totals of any entity: the rows of the aggregation, entity by
  entity, are at least what they were.
\<close>

theorem widening_never_decreases_totals:
  assumes "js_le start' start" and "js_le end end'"
    and "narrow = (loadLog text)\<lparr>timeFilter :=
            \<lparr>filter_enabled = True, filter_start = Some start, filter_end = Some end\<rparr>\<rparr>"
    and "wide = (loadLog text)\<lparr>timeFilter :=
            \<lparr>filter_enabled = True, filter_start = Some start', filter_end = Some end'\<rparr>\<rparr>"
  shows "list_all2
           (\<lambda>r r'. row_name r = row_name r' \<and>
                    js_le (row_damageDone r) (row_damageDone r') \<and>
                    js_le (row_healingDone r) (row_healingDone r') \<and>
                    js_le (row_damageReceived r) (row_damageReceived r'))
           (buildAggregatedEntitiesForCurrentTimeFrame narrow)
           (buildAggregatedEntitiesForCurrentTimeFrame wide)"
proof -
  let ?tf = "\<lparr>filter_enabled = True, filter_start = Some start, filter_end = Some end\<rparr>"
  let ?tf' = "\<lparr>filter_enabled = True, filter_start = Some start', filter_end = Some end'\<rparr>"
  have ok: "list_all (\<lambda>(n, e). totalsMatch e \<and> amountsNonneg e) (entities (loadLog text))"
    using loadLog_ok [of "text"] by (simp add: entitiesOk_def)
  have mono: "js_le (sumInFrame ?tf evs) (sumInFrame ?tf' evs)"
    if "list_all (\<lambda>ev. js_le (Fin 0) (ev_amount ev)) evs" for evs
    using that frame_widening [OF assms(1,2)] by (intro sumInFrame_mono) simp_all
  have "list_all (\<lambda>(n, e).
          js_le (sumInFrame ?tf (damageEvents e)) (sumInFrame ?tf' (damageEvents e)) \<and>
          js_le (sumInFrame ?tf (healEvents e)) (sumInFrame ?tf' (healEvents e)) \<and>
          js_le (sumInFrame ?tf (damageTakenEvents e)) (sumInFrame ?tf' (damageTakenEvents e)))
        (entities (loadLog text))"
    by (rule list_all_entities_mono [OF ok]) (simp add: amountsNonneg_def mono)
  then show ?thesis
    unfolding assms(3,4) buildAggregatedEntitiesForCurrentTimeFrame_def
    by (simp add: list_all2_map1 list_all2_map2 list_all2_same list_all_iff case_prod_beta)
qed

lemma widening_example:
  "map row_damageDone (buildAggregatedEntitiesForCurrentTimeFrame
      ((loadLog ''100,DMG,Alice,Bob,Fireball,-50,Magic,Crit\<newline>200,DMG,Alice,Bob,Fireball,70,Magic,Crit'')
         \<lparr>timeFilter := \<lparr>filter_enabled = True, filter_start = Some (Fin 150),
                          filter_end = Some (Fin 200)\<rparr>\<rparr>)) = [Fin 70, Fin 0]
   \<and> map row_damageDone (buildAggregatedEntitiesForCurrentTimeFrame
      ((loadLog ''100,DMG,Alice,Bob,Fireball,-50,Magic,Crit\<newline>200,DMG,Alice,Bob,Fireball,70,Magic,Crit'')
         \<lparr>timeFilter := \<lparr>filter_enabled = True, filter_start = Some (Fin 100),
                          filter_end = Some (Fin 200)\<rparr>\<rparr>)) = [Fin 120, Fin 0]"
  by code_simp

theorem widening_never_decreases_totals_witness:
  "list_all2
     (\<lambda>r r'. row_name r = row_name r' \<and>
              js_le (row_damageDone r) (row_damageDone r') \<and>
              js_le (row_healingDone r) (row_healingDone r') \<and>
              js_le (row_damageReceived r) (row_damageReceived r'))
     (buildAggregatedEntitiesForCurrentTimeFrame
        ((loadLog ''100,DMG,Alice,Bob,Fireball,-50,Magic,Crit\<newline>200,DMG,Alice,Bob,Fireball,70,Magic,Crit'')
           \<lparr>timeFilter := \<lparr>filter_enabled = True, filter_start = Some (Fin 150),
                            filter_end = Some (Fin 200)\<rparr>\<rparr>))
     (buildAggregatedEntitiesForCurrentTimeFrame
        ((loadLog ''100,DMG,Alice,Bob,Fireball,-50,Magic,Crit\<newline>200,DMG,Alice,Bob,Fireball,70,Magic,Crit'')
           \<lparr>timeFilter := \<lparr>filter_enabled = True, filter_start = Some (Fin 100),
                            filter_end = Some (Fin 200)\<rparr>\<rparr>))
   \<and> map row_damageDone (buildAggregatedEntitiesForCurrentTimeFrame
      ((loadLog ''100,DMG,Alice,Bob,Fireball,-50,Magic,Crit\<newline>200,DMG,Alice,Bob,Fireball,70,Magic,Crit'')
         \<lparr>timeFilter := \<lparr>filter_enabled = True, filter_start = Some (Fin 150),
                          filter_end = Some (Fin 200)\<rparr>\<rparr>)) = [Fin 70, Fin 0]
   \<and> map row_damageDone (buildAggregatedEntitiesForCurrentTimeFrame
      ((loadLog ''100,DMG,Alice,Bob,Fireball,-50,Magic,Crit\<newline>200,DMG,Alice,Bob,Fireball,70,Magic,Crit'')
         \<lparr>timeFilter := \<lparr>filter_enabled = True, filter_start = Some (Fin 100),
                          filter_end = Some (Fin 200)\<rparr>\<rparr>)) = [Fin 120, Fin 0]"
proof -
  have a: "js_le (Fin 100) (Fin 150)" and b: "js_le (Fin 200) (Fin 200)"
    by simp_all
  show ?thesis
    using widening_never_decreases_totals [OF a b refl refl] widening_example
    by (rule conjI)
qed

subsection \<open>C8\<close>

text \<open>
  C8. A HEAL line appends one event to the heal-done history of its source and adds the
  amount to the source's \<open>healingDone\<close>; nothing else of the source changes. Every other
  entity, the target included when it is not the source itself, is as it was before (an
  entity that the line registers is new: empty histories and zero totals). So no healing
  is recorded on the side of the target.
\<close>

theorem heal_changes_source_only:
  assumes "trim line \<noteq> []" and "parts = lineFields (trim line)" and "8 \<le> length parts"
    and "Number_js (parts ! 0) = ts" and "ts \<noteq> NaN"
    and "Number_js (parts ! 5) = raw" and "raw \<noteq> NaN"
    and "parts ! 1 = ''HEAL''"
    and "src = parts ! 2" and "tgt = parts ! 3"
    and "old = entities s" and "new = entities (parseLine line s)"
  shows "entityOf new src =
           (entityOf old src)
             \<lparr>healingDone := js_add (healingDone (entityOf old src)) (js_abs raw),
              healEvents := healEvents (entityOf old src) @
                [\<lparr>ev_timestamp = ts, ev_type = ''HEAL'', ev_source = None, ev_target = Some tgt,
                  ev_skill = parts ! 4, ev_amount = js_abs raw, ev_pool = parts ! 6,
                  ev_hitType = parts ! 7\<rparr>]\<rparr>
         \<and> (\<forall>n. n \<noteq> src \<longrightarrow> entityOf new n = entityOf old n)
         \<and> (tgt \<noteq> src \<longrightarrow> map_of new tgt = Some (entityOf old tgt))
         \<and> (\<forall>n. n \<noteq> src \<and> n \<noteq> tgt \<longrightarrow> map_of new n = map_of old n)"
proof -
  have step: "parseLine line s = parseNumericEvent ts ''HEAL'' parts (incTotal s)"
    using assms parseLine_numeric [of line parts s] by auto
  have ent: "entityOf new n =
      (if n = src then (entityOf old src)
             \<lparr>healingDone := js_add (healingDone (entityOf old src)) (js_abs raw),
              healEvents := healEvents (entityOf old src) @
                [\<lparr>ev_timestamp = ts, ev_type = ''HEAL'', ev_source = None, ev_target = Some tgt,
                  ev_skill = parts ! 4, ev_amount = js_abs raw, ev_pool = parts ! 6,
                  ev_hitType = parts ! 7\<rparr>]\<rparr>
       else entityOf old n)" for n
    using assms step parseNumericEvent_heal_entities [of parts ts "incTotal s" n]
    by (simp add: Let_def)
  have "map_of new tgt \<noteq> None"
    using assms step
    by (simp add: parseNumericEvent_def Let_def present_simps)
  then have "map_of new tgt = Some (entityOf new tgt)"
    by (auto simp: entityOf_def)
  moreover have "map_of new n = map_of old n" if "n \<noteq> src" "n \<noteq> tgt" for n
    using that assms step
    by (simp add: parseNumericEvent_def Let_def map_of_getEntity map_of_updateEntity)
  ultimately show ?thesis using ent by simp
qed

lemma scenario_B_first:
  "entityOf (entities (parseLine ''10,HEAL,Carol,Carol,Regen,30,Health,Normal'' resetState)) ''Carol''
   = (newEntity ''Carol'')
       \<lparr>healingDone := Fin 30,
        healEvents := [\<lparr>ev_timestamp = Fin 10, ev_type = ''HEAL'', ev_source = None,
                        ev_target = Some ''Carol'', ev_skill = ''Regen'', ev_amount = Fin 30,
                        ev_pool = ''Health'', ev_hitType = ''Normal''\<rparr>]\<rparr>
   \<and> map_of (entities (parseLine ''10,HEAL,Carol,Carol,Regen,30,Health,Normal'' resetState)) ''Dave''
       = None"
  by code_simp

lemma scenario_B_trim: "trim ''20,HEAL,Carol,Dave,Regen,20,Health,Normal'' \<noteq> []"
  by code_simp

lemma scenario_B_fields:
  "lineFields (trim ''20,HEAL,Carol,Dave,Regen,20,Health,Normal'') =
     [''20'', ''HEAL'', ''Carol'', ''Dave'', ''Regen'', ''20'', ''Health'', ''Normal'']"
  by code_simp

lemma Number_20: "Number_js ''20'' = Fin 20"
  by code_simp

theorem heal_changes_source_only_witness:
  "healingDone (entityOf (entities (parseLines [''10,HEAL,Carol,Carol,Regen,30,Health,Normal'',
       ''20,HEAL,Carol,Dave,Regen,20,Health,Normal''] resetState)) ''Carol'') = Fin 50
   \<and> map_of (entities (parseLines [''10,HEAL,Carol,Carol,Regen,30,Health,Normal'',
       ''20,HEAL,Carol,Dave,Regen,20,Health,Normal''] resetState)) ''Dave''
       = Some (newEntity ''Dave'')
   \<and> healEvents (newEntity ''Dave'') = [] \<and> healingDone (newEntity ''Dave'') = Fin 0"
  using heal_changes_source_only [OF scenario_B_trim scenario_B_fields [symmetric],
      of "Fin 20" "Fin 20" "''Carol''" "''Dave''"
         "entities (parseLine ''10,HEAL,Carol,Carol,Regen,30,Health,Normal'' resetState)"
         "parseLine ''10,HEAL,Carol,Carol,Regen,30,Health,Normal'' resetState"
         "entities (parseLine ''20,HEAL,Carol,Dave,Regen,20,Health,Normal''
            (parseLine ''10,HEAL,Carol,Carol,Regen,30,Health,Normal'' resetState))"]
    scenario_B_first
  by (simp add: Number_20 parseLines_Nil parseLines_Cons entityOf_def newEntity_def)

subsection \<open>C9\<close>

text \<open>
  C9. After the load of any text, \<open>totalLines = parsedLines + skippedLines\<close>. A blank
  line (nothing but white space) changes no counter, indeed nothing at all; any other line
  adds 1 to \<open>totalLines\<close> and 1 to exactly one of \<open>parsedLines\<close> and \<open>skippedLines\<close>.
\<close>

theorem counters_balance:
  "totalLines (globalStats (loadLog text)) =
     parsedLines (globalStats (loadLog text)) + skippedLines (globalStats (loadLog text))
   \<and> (\<forall>line s. trim line = [] \<longrightarrow> parseLine line s = s)
   \<and> (\<forall>line s. trim line \<noteq> [] \<longrightarrow>
        totalLines (globalStats (parseLine line s)) = totalLines (globalStats s) + 1 \<and>
        (parsedLines (globalStats (parseLine line s)) = parsedLines (globalStats s) + 1 \<and>
         skippedLines (globalStats (parseLine line s)) = skippedLines (globalStats s)
         \<or>
         parsedLines (globalStats (parseLine line s)) = parsedLines (globalStats s) \<and>
         skippedLines (globalStats (parseLine line s)) = skippedLines (globalStats s) + 1))"
proof -
  have "totalLines (globalStats resetState) =
          parsedLines (globalStats resetState) + skippedLines (globalStats resetState)"
    by (simp add: resetState_def)
  then have "totalLines (globalStats (loadLog text)) =
     parsedLines (globalStats (loadLog text)) + skippedLines (globalStats (loadLog text))"
    unfolding loadLog_def by (simp add: parseLines_balance Let_def)
  then show ?thesis
    using parseLine_counters parseLine_blank by simp
qed

lemma counters_example:
  "(let s = loadLog ''100,DMG,Alice,Bob,Fireball,-50,Magic,Crit\<newline>   \<newline>oops\<newline>7,BUFF,A,B,Haste,12''
    in (totalLines (globalStats s), parsedLines (globalStats s), skippedLines (globalStats s)))
   = (3, 2, 1)"
  by code_simp

theorem counters_balance_witness:
  "(let s = loadLog ''100,DMG,Alice,Bob,Fireball,-50,Magic,Crit\<newline>   \<newline>oops\<newline>7,BUFF,A,B,Haste,12''
    in totalLines (globalStats s) = parsedLines (globalStats s) + skippedLines (globalStats s)
       \<and> totalLines (globalStats s) = 3)
   \<and> parseLine ''   '' resetState = resetState
   \<and> totalLines (globalStats (parseLine ''oops'' resetState)) = 1"
proof -
  have t1: "trim ''   '' = []" by code_simp
  have t2: "trim ''oops'' \<noteq> []" by code_simp
  have r0: "totalLines (globalStats resetState) = 0" by (simp add: resetState_def)
  show ?thesis
    using counters_balance [of "''100,DMG,Alice,Bob,Fireball,-50,Magic,Crit\<newline>   \<newline>oops\<newline>7,BUFF,A,B,Haste,12''"]
      counters_example t1 t2 r0
    by (simp add: Let_def)
qed

subsection \<open>C10\<close>

text \<open>
  C10. The conversion to a number maps the empty string, and any string of white space
  only, to 0, so an empty timestamp or amount field (the fields are trimmed) does not make
  a line skipped. A line of a known kind with enough fields, whose timestamp and amount
  fields are each empty or a number, is parsed; with an empty timestamp it is parsed at
  timestamp 0 and the time bounds then include 0; with an empty amount it is parsed with the
  amount 0.
\<close>

theorem empty_number_field_is_zero:
  assumes "trim line \<noteq> []" and "parts = lineFields (trim line)"
    and "parts ! 0 = [] \<or> Number_js (parts ! 0) \<noteq> NaN"
    and "parts ! 1 \<in> {''DMG'', ''DOT'', ''HEAL'', ''ENERGIZE''} \<and> 8 \<le> length parts \<and>
           (parts ! 5 = [] \<or> Number_js (parts ! 5) \<noteq> NaN)
         \<or> parts ! 1 \<in> {''BUFF'', ''DEBUFF''} \<and> 6 \<le> length parts"
    and "bounds_min (timeBounds s) \<noteq> Some NaN" and "bounds_max (timeBounds s) \<noteq> Some NaN"
    and "new = entities (parseLine line s)"
  shows "(\<forall>w. list_all is_ws w \<longrightarrow> trim w = [] \<and> Number_js w = Fin 0)
    \<and> parsedLines (globalStats (parseLine line s)) = parsedLines (globalStats s) + 1
    \<and> skippedLines (globalStats (parseLine line s)) = skippedLines (globalStats s)
    \<and> (parts ! 0 = [] \<longrightarrow>
         (\<exists>lo hi. bounds_min (timeBounds (parseLine line s)) = Some lo \<and>
                  bounds_max (timeBounds (parseLine line s)) = Some hi \<and>
                  js_le lo (Fin 0) \<and> js_le (Fin 0) hi))
    \<and> (parts ! 1 \<in> {''DMG'', ''DOT''} \<longrightarrow>
         (parts ! 0 = [] \<longrightarrow> ev_timestamp (last (damageEvents (entityOf new (parts ! 2)))) = Fin 0) \<and>
         (parts ! 5 = [] \<longrightarrow> ev_amount (last (damageEvents (entityOf new (parts ! 2)))) = Fin 0))
    \<and> (parts ! 1 = ''HEAL'' \<longrightarrow>
         (parts ! 0 = [] \<longrightarrow> ev_timestamp (last (healEvents (entityOf new (parts ! 2)))) = Fin 0) \<and>
         (parts ! 5 = [] \<longrightarrow> ev_amount (last (healEvents (entityOf new (parts ! 2)))) = Fin 0))"
proof -
  have ts: "Number_js (parts ! 0) \<noteq> NaN"
    using assms(3) by (auto simp: Number_js_Nil)
  have white: "\<forall>w. list_all is_ws w \<longrightarrow> trim w = [] \<and> Number_js w = Fin 0"
    by (simp add: trim_white Number_js_white)
  from assms(4) show ?thesis
  proof
    assume num: "parts ! 1 \<in> {''DMG'', ''DOT'', ''HEAL'', ''ENERGIZE''} \<and> 8 \<le> length parts \<and>
           (parts ! 5 = [] \<or> Number_js (parts ! 5) \<noteq> NaN)"
    then have len: "8 \<le> length parts" and am: "Number_js (parts ! 5) \<noteq> NaN"
      by (auto simp: Number_js_Nil)
    have step: "parseLine line s =
        parseNumericEvent (Number_js (parts ! 0)) (parts ! 1) parts (incTotal s)"
      using assms(1,2) num ts parseLine_numeric [of line parts s] by auto
    have counters: "parsedLines (globalStats (parseLine line s)) = parsedLines (globalStats s) + 1
        \<and> skippedLines (globalStats (parseLine line s)) = skippedLines (globalStats s)"
      using step am len
        parseNumericEvent_counters [of "Number_js (parts ! 0)" "parts ! 1" parts "incTotal s"]
      by simp
    have bounds: "\<exists>lo hi. bounds_min (timeBounds (parseLine line s)) = Some lo \<and>
                    bounds_max (timeBounds (parseLine line s)) = Some hi \<and>
                    js_le lo (Fin 0) \<and> js_le (Fin 0) hi" if "parts ! 0 = []"
      using that step am len assms(5,6) updateTimeBounds_includes [of "Fin 0" "timeBounds s"]
      by (simp add: timeBounds_parseNumericEvent Number_js_Nil)
    have dmg: "(parts ! 0 = [] \<longrightarrow> ev_timestamp (last (damageEvents (entityOf new (parts ! 2)))) = Fin 0) \<and>
           (parts ! 5 = [] \<longrightarrow> ev_amount (last (damageEvents (entityOf new (parts ! 2)))) = Fin 0)"
      if "parts ! 1 \<in> {''DMG'', ''DOT''}"
      using that step am len assms(7)
        parseNumericEvent_damage_entities [of parts "parts ! 1" "Number_js (parts ! 0)" "incTotal s" "parts ! 2"]
      by (auto simp: Let_def Number_js_Nil)
    have heal: "(parts ! 0 = [] \<longrightarrow> ev_timestamp (last (healEvents (entityOf new (parts ! 2)))) = Fin 0) \<and>
           (parts ! 5 = [] \<longrightarrow> ev_amount (last (healEvents (entityOf new (parts ! 2)))) = Fin 0)"
      if "parts ! 1 = ''HEAL''"
      using that step am len assms(7)
        parseNumericEvent_heal_entities [of parts "Number_js (parts ! 0)" "incTotal s" "parts ! 2"]
      by (auto simp: Let_def Number_js_Nil)
    show ?thesis
      using white counters bounds dmg heal by simp
  next
    assume eff: "parts ! 1 \<in> {''BUFF'', ''DEBUFF''} \<and> 6 \<le> length parts"
    then have len: "6 \<le> length parts" by simp
    have step: "parseLine line s =
        parseEffectEvent (Number_js (parts ! 0)) (parts ! 1) parts (incTotal s)"
      using assms(1,2) eff ts parseLine_effect [of line parts s] by auto
    have counters: "parsedLines (globalStats (parseLine line s)) = parsedLines (globalStats s) + 1
        \<and> skippedLines (globalStats (parseLine line s)) = skippedLines (globalStats s)"
      using step len
        parseEffectEvent_counters [of "Number_js (parts ! 0)" "parts ! 1" parts "incTotal s"]
      by simp
    have bounds: "\<exists>lo hi. bounds_min (timeBounds (parseLine line s)) = Some lo \<and>
                    bounds_max (timeBounds (parseLine line s)) = Some hi \<and>
                    js_le lo (Fin 0) \<and> js_le (Fin 0) hi" if "parts ! 0 = []"
      using that step len assms(5,6) updateTimeBounds_includes [of "Fin 0" "timeBounds s"]
      by (simp add: timeBounds_parseEffectEvent Number_js_Nil)
    have "parts ! 1 \<notin> {''DMG'', ''DOT''}" and "parts ! 1 \<noteq> ''HEAL''"
      using eff by auto
    then show ?thesis
      using white counters bounds by simp
  qed
qed

lemma empty_timestamp_trim: "trim '',DMG,A,B,S,10,P,H'' \<noteq> []"
  by code_simp

lemma empty_timestamp_fields:
  "lineFields (trim '',DMG,A,B,S,10,P,H'') = [[], ''DMG'', ''A'', ''B'', ''S'', ''10'', ''P'', ''H'']"
  by code_simp

lemma Number_10: "Number_js ''10'' = Fin 10"
  by code_simp

lemma empty_examples:
  "timeBounds (parseLine '',DMG,A,B,S,10,P,H'' resetState) =
     \<lparr>bounds_min = Some (Fin 0), bounds_max = Some (Fin 0)\<rparr>
   \<and> damageEvents (entityOf (entities (parseLine '',DMG,A,B,S,10,P,H'' resetState)) ''A'') =
     [\<lparr>ev_timestamp = Fin 0, ev_type = ''DMG'', ev_source = None, ev_target = Some ''B'',
       ev_skill = ''S'', ev_amount = Fin 10, ev_pool = ''P'', ev_hitType = ''H''\<rparr>]
   \<and> damageEvents (entityOf (entities (parseLine ''5,DMG,A,B,S,,P,H'' resetState)) ''A'') =
     [\<lparr>ev_timestamp = Fin 5, ev_type = ''DMG'', ev_source = None, ev_target = Some ''B'',
       ev_skill = ''S'', ev_amount = Fin 0, ev_pool = ''P'', ev_hitType = ''H''\<rparr>]
   \<and> parsedLines (globalStats (parseLine ''5,DMG,A,B,S,,P,H'' resetState)) = 1
   \<and> parsedLines (globalStats (parseLine ''5,DMG,A,B,S, ,P,H'' resetState)) = 1"
  by code_simp

theorem empty_number_field_is_zero_witness:
  "parsedLines (globalStats (parseLine '',DMG,A,B,S,10,P,H'' resetState)) = 1
   \<and> skippedLines (globalStats (parseLine '',DMG,A,B,S,10,P,H'' resetState)) = 0
   \<and> ev_timestamp (last (damageEvents
        (entityOf (entities (parseLine '',DMG,A,B,S,10,P,H'' resetState)) ''A''))) = Fin 0
   \<and> timeBounds (parseLine '',DMG,A,B,S,10,P,H'' resetState) =
        \<lparr>bounds_min = Some (Fin 0), bounds_max = Some (Fin 0)\<rparr>
   \<and> ev_amount (last (damageEvents
        (entityOf (entities (parseLine ''5,DMG,A,B,S,,P,H'' resetState)) ''A''))) = Fin 0"
  using empty_number_field_is_zero [OF empty_timestamp_trim empty_timestamp_fields [symmetric],
      of resetState "entities (parseLine '',DMG,A,B,S,10,P,H'' resetState)"]
    empty_examples
  by (simp add: Number_10 resetState_def)

end
